theory Spec2Isabelle
  imports Main "HOL-Library.Word"
begin

section \<open>Data model (types.go)\<close>

text \<open>
  Go's \<open>int\<close> and \<open>int64\<close> are 64-bit two's-complement integers on the 64-bit
  targets the library is built for: \<open>+\<close> wraps around, and the order is the signed one
  (\<open>sint\<close>). Strings are byte sequences.
\<close>

type_synonym go_int = "64 word"
type_synonym int64 = "64 word"

record User =
  UserID :: int64
  FirstName :: string
  LastName :: string
  UserUsername :: string

record Chat =
  ID :: int64
  Type :: string
  Title :: string
  Username :: string

text \<open>The pointer fields \<open>From *User\<close> and \<open>Chat *Chat\<close> are \<open>None\<close> when nil.\<close>

record Message =
  MessageID :: go_int
  From :: "User option"
  Chat :: "Chat option"
  Date :: int64
  Text :: string

record Update =
  UpdateID :: go_int
  Message :: "Message option"

record Response =
  Ok :: bool
  Result :: string
  Description :: string

record SendMessageRequest =
  ChatID :: int64
  ReqText :: string

section \<open>The strings package, as far as command.go uses it\<close>

definition HasPrefix :: "string \<Rightarrow> string \<Rightarrow> bool" where
  "HasPrefix s pre = (take (length pre) s = pre)"

definition TrimPrefix :: "string \<Rightarrow> string \<Rightarrow> string" where
  "TrimPrefix s pre = (if HasPrefix s pre then drop (length pre) s else s)"

text \<open>
  \<open>strings.Split(s, sep)\<close> for a one-byte separator (the source splits on \<open>"@"\<close>): the
  pieces of \<open>s\<close> between the occurrences of the separator, at least one piece.
\<close>

fun Split :: "string \<Rightarrow> char \<Rightarrow> string list" where
  "Split [] sep = [[]]"
| "Split (c # cs) sep =
     (if c = sep then [] # Split cs sep
      else (case Split cs sep of
              [] \<Rightarrow> [[c]]
            | piece # pieces \<Rightarrow> (c # piece) # pieces))"

text \<open>
  \<open>strings.Fields\<close> cuts a string around runs of white space, where white space is
  \<open>unicode.IsSpace\<close> on the runes Go decodes from the bytes: the six ASCII characters
  tab, line feed, vertical tab, form feed, carriage return and space, and the code points
  U+0085, U+00A0, U+1680, U+2000 to U+200A, U+2028, U+2029, U+202F, U+205F and U+3000.
  A byte that starts no valid UTF-8 sequence is decoded as one rune U+FFFD, which is not
  white space, and the first byte of a sequence is never a continuation byte of another
  one, so a white-space rune stands exactly where its UTF-8 encoding stands in the bytes.
  \<open>space_width s\<close> is the number of bytes of the white-space rune \<open>s\<close> starts with,
  and 0 when \<open>s\<close> starts with none.
\<close>

definition asciiSpace :: "char \<Rightarrow> bool" where
  "asciiSpace c = (c = CHR 0x09 \<or> c = CHR 0x0A \<or> c = CHR 0x0B \<or> c = CHR 0x0C
                   \<or> c = CHR 0x0D \<or> c = CHR 0x20)"

definition space3 :: "char \<Rightarrow> char \<Rightarrow> char \<Rightarrow> bool" where
  "space3 c1 c2 c3 =
     ((c1 = CHR 0xE1 \<and> c2 = CHR 0x9A \<and> c3 = CHR 0x80)
    \<or> (c1 = CHR 0xE2 \<and> c2 = CHR 0x80 \<and>
         (c3 = CHR 0x80 \<or> c3 = CHR 0x81 \<or> c3 = CHR 0x82 \<or> c3 = CHR 0x83 \<or> c3 = CHR 0x84
        \<or> c3 = CHR 0x85 \<or> c3 = CHR 0x86 \<or> c3 = CHR 0x87 \<or> c3 = CHR 0x88 \<or> c3 = CHR 0x89
        \<or> c3 = CHR 0x8A \<or> c3 = CHR 0xA8 \<or> c3 = CHR 0xA9 \<or> c3 = CHR 0xAF))
    \<or> (c1 = CHR 0xE2 \<and> c2 = CHR 0x81 \<and> c3 = CHR 0x9F)
    \<or> (c1 = CHR 0xE3 \<and> c2 = CHR 0x80 \<and> c3 = CHR 0x80))"

fun space_width :: "string \<Rightarrow> nat" where
  "space_width [] = 0"
| "space_width [c1] = (if asciiSpace c1 then 1 else 0)"
| "space_width [c1, c2] =
     (if asciiSpace c1 then 1
      else if c1 = CHR 0xC2 \<and> (c2 = CHR 0x85 \<or> c2 = CHR 0xA0) then 2 else 0)"
| "space_width (c1 # c2 # c3 # rest) =
     (if asciiSpace c1 then 1
      else if c1 = CHR 0xC2 \<and> (c2 = CHR 0x85 \<or> c2 = CHR 0xA0) then 2
      else if space3 c1 c2 c3 then 3 else 0)"

text \<open>
  The scan of \<open>strings.Fields\<close>: \<open>tok\<close> is the field being read (empty between
  fields); a white-space rune closes it.
\<close>

fun fields_scan :: "string \<Rightarrow> string \<Rightarrow> string list" where
  "fields_scan tok [] = (if tok = [] then [] else [tok])"
| "fields_scan tok (c # cs) =
     (if space_width (c # cs) = 0 then fields_scan (tok @ [c]) cs
      else (if tok = [] then [] else [tok])
           @ fields_scan [] (drop (space_width (c # cs) - 1) cs))"

definition Fields :: "string \<Rightarrow> string list" where
  "Fields s = fields_scan [] s"

section \<open>Errors, requests and observable events\<close>

text \<open>
  A Go \<open>error\<close> value: the two errors a context reports (\<open>ctx.Err()\<close>), an error that
  is only a message (\<open>fmt.Errorf\<close> without \<open>%w\<close>, or an error of a library), and
  \<open>fmt.Errorf(prefix + "%w", cause)\<close>, which wraps its cause.
\<close>

datatype ctx_error = Canceled | DeadlineExceeded

datatype go_error =
    ContextError ctx_error
  | ErrorString string
  | WrapError string go_error

fun Error :: "go_error \<Rightarrow> string" where
  "Error (ContextError Canceled) = ''context canceled''"
| "Error (ContextError DeadlineExceeded) = ''context deadline exceeded''"
| "Error (ErrorString s) = s"
| "Error (WrapError prefix cause) = prefix @ Error cause"

fun Unwrap :: "go_error \<Rightarrow> go_error option" where
  "Unwrap (WrapError prefix cause) = Some cause"
| "Unwrap e = None"

definition timeout :: nat where
  "timeout = 60"

text \<open>
  The payload of a request: the parameter map of getUpdates
  (\<open>{"offset": b.offset, "timeout": timeout}\<close>) or a \<open>SendMessageRequest\<close>;
  \<open>None\<close> is the nil payload.
\<close>

datatype payload =
    Params (param_offset: go_int) (param_timeout: nat)
  | SendMessagePayload SendMessageRequest

section \<open>The command registry (command.go)\<close>

text \<open>
  A handler (\<open>Command\<close>) is a value of the type \<open>'h\<close>; calling it is the event
  \<open>Invoke\<close> with the arguments it receives. The table is the map that
  \<open>NewCommandRegistry\<close> allocates.
\<close>

record 'h CommandRegistry =
  registry :: "string \<rightharpoonup> 'h"

text \<open>The HTTP client of the Go struct is the transport, which the environment plays.\<close>

record 'h Bot =
  token :: string
  offset :: go_int
  commandRegistry :: "'h CommandRegistry option"
  apiBaseURL :: string

datatype attr = String string string | Int64 string int64

datatype 'h event =
    Log string
  | Slog string string "attr list"
  | HttpPost string string string "payload option"
  | Sleep nat
  | Invoke 'h "'h Bot" Message
  | Go_handleMessage Message

definition NewCommandRegistry :: "'h CommandRegistry" where
  "NewCommandRegistry = \<lparr>registry = Map.empty\<rparr>"

definition Register :: "'h CommandRegistry \<Rightarrow> string \<Rightarrow> 'h \<Rightarrow> 'h CommandRegistry" where
  "Register cr command action = cr\<lparr>registry := (registry cr)(command \<mapsto> action)\<rparr>"

text \<open>
  \<open>Execute\<close> returns its boolean and the handler calls it made. \<open>parts[0]\<close> is read
  after the length check, and \<open>strings.Split\<close> always returns a first piece.
\<close>

definition Execute :: "'h CommandRegistry \<Rightarrow> 'h Bot \<Rightarrow> Message \<Rightarrow> bool \<times> 'h event list" where
  "Execute cr b msg =
     (if \<not> HasPrefix (Text msg) ''/'' then (False, [])
      else
        (case Fields (Text msg) of
           [] \<Rightarrow> (False, [])
         | part0 # _ \<Rightarrow>
             (let command = TrimPrefix part0 ''/'';
                  command = hd (Split command (CHR ''@''))
              in (case registry cr command of
                    None \<Rightarrow> (False, [])
                  | Some action \<Rightarrow> (True, [Invoke action b msg])))))"

section \<open>Requests (bot.go)\<close>

text \<open>
  What the world outside does with one call of \<open>makeRequest\<close>, in the order of the
  code: \<open>json.Marshal\<close> of the payload (asked only when there is a payload),
  \<open>http.NewRequestWithContext\<close>, \<open>client.Do\<close>, \<open>io.ReadAll\<close> and
  \<open>json.Unmarshal\<close> of the body into the envelope; \<open>json_Unmarshal\<close> is the decoding
  of the envelope's \<open>Result\<close> into the value the caller asks for.
\<close>

datatype http_outcome =
    NewRequestFails go_error
  | DoFails go_error
  | ReadFails go_error
  | UnmarshalFails go_error
  | Decoded Response

record 'a call_env =
  marshal_err :: "go_error option"
  http :: http_outcome
  json_Unmarshal :: "string \<Rightarrow> go_error + 'a"

definition makeRequest ::
  "'h Bot \<Rightarrow> 'a call_env \<Rightarrow> string \<Rightarrow> payload option \<Rightarrow> 'h event list \<times> (go_error + Response)" where
  "makeRequest b env method pl =
     (let post = HttpPost (apiBaseURL b) (token b) method pl in
      case (case pl of None \<Rightarrow> None | Some p \<Rightarrow> marshal_err env) of
        Some err \<Rightarrow> ([], Inl (WrapError ''error marshaling payload: '' err))
      | None \<Rightarrow>
          (case http env of
             NewRequestFails err \<Rightarrow> ([], Inl (WrapError ''error creating request: '' err))
           | DoFails err \<Rightarrow> ([post], Inl (WrapError ''error making request: '' err))
           | ReadFails err \<Rightarrow> ([post], Inl (WrapError ''error reading response: '' err))
           | UnmarshalFails err \<Rightarrow>
               ([post], Inl (WrapError ''error unmarshaling response: '' err))
           | Decoded apiResp \<Rightarrow>
               if \<not> Ok apiResp
               then ([post], Inl (ErrorString (''API error: '' @ Description apiResp)))
               else ([post], Inr apiResp)))"

definition getUpdates ::
  "'h Bot \<Rightarrow> (Update list) call_env \<Rightarrow> 'h event list \<times> (go_error + Update list)" where
  "getUpdates b env =
     (let params = Params (offset b) timeout;
          (evs, r) = makeRequest b env ''getUpdates'' (Some params)
      in case r of
           Inl err \<Rightarrow> (evs, Inl err)
         | Inr resp \<Rightarrow>
             (case json_Unmarshal env (Result resp) of
                Inl err \<Rightarrow> (evs, Inl (WrapError ''error unmarshaling updates: '' err))
              | Inr updates \<Rightarrow> (evs, Inr updates)))"

definition SendMessage ::
  "'h Bot \<Rightarrow> 'a call_env \<Rightarrow> int64 \<Rightarrow> string \<Rightarrow> 'h event list \<times> go_error option" where
  "SendMessage b env chatID text =
     (let pl = \<lparr>ChatID = chatID, ReqText = text\<rparr>;
          (evs, r) = makeRequest b env ''sendMessage'' (Some (SendMessagePayload pl))
      in case r of Inl err \<Rightarrow> (evs, Some err) | Inr resp \<Rightarrow> (evs, None))"

definition GetMe :: "'h Bot \<Rightarrow> User call_env \<Rightarrow> 'h event list \<times> go_error option" where
  "GetMe b env =
     (let (evs, r) = makeRequest b env ''getMe'' None
      in case r of
           Inl err \<Rightarrow> (evs, Some err)
         | Inr resp \<Rightarrow>
             (case json_Unmarshal env (Result resp) of
                Inl err \<Rightarrow> (evs, Some err)
              | Inr user \<Rightarrow>
                  (evs @ [Log (''Bot iniciado: @'' @ UserUsername user @ '' (''
                               @ FirstName user @ '')'')], None)))"

section \<open>Message handling (bot.go)\<close>

text \<open>
  \<open>handleMessage\<close> returns nothing; what it does is its events, and it either returns or
  stops in the run-time panic of a nil pointer dereference (\<open>msg.From.FirstName\<close>,
  \<open>msg.Chat.ID\<close>). The first \<open>log.Printf\<close> evaluates \<open>msg.From.FirstName\<close>
  before it writes anything.
\<close>

datatype completion = Returned | NilPointerPanic

definition handleMessage ::
  "'h Bot \<Rightarrow> 'a call_env \<Rightarrow> Message \<Rightarrow> 'h event list \<times> completion" where
  "handleMessage b env msg =
     (case From msg of
        None \<Rightarrow> ([], NilPointerPanic)
      | Some sender \<Rightarrow>
          (let received = Log (''Mensaje de '' @ FirstName sender @ '': '' @ Text msg) in
           if HasPrefix (Text msg) ''/'' then
             (case commandRegistry b of
                None \<Rightarrow> ([received], Returned)
              | Some cr \<Rightarrow> (received # snd (Execute cr b msg), Returned))
           else if Text msg \<noteq> [] then
             (case Chat msg of
                None \<Rightarrow> ([received], NilPointerPanic)
              | Some chat \<Rightarrow>
                  (let response = ''Recib'' @ [CHR 0xC3, CHR 0xAD] @ '' tu mensaje: '' @ Text msg;
                       (evs, err) = SendMessage b env (ID chat) response
                   in case err of
                        Some e \<Rightarrow>
                          (received # evs @ [Log (''Error enviando mensaje: '' @ Error e)],
                           Returned)
                      | None \<Rightarrow> (received # evs, Returned)))
           else ([received], Returned)))"

definition SetCommandRegistry :: "'h Bot \<Rightarrow> 'h CommandRegistry option \<Rightarrow> 'h Bot" where
  "SetCommandRegistry b cr = b\<lparr>commandRegistry := cr\<rparr>"

section \<open>The polling loop (bot.go, Start)\<close>

text \<open>
  The body of \<open>for _, update := range updates\<close>: the offset is set for every update, and
  a message is handed to a goroutine of its own (the event \<open>Go_handleMessage\<close>; what the
  goroutine does is not part of the loop's run, and a panic in it would end the process
  and the loop with it).
\<close>

fun process_updates :: "'h Bot \<Rightarrow> Update list \<Rightarrow> 'h Bot \<times> 'h event list" where
  "process_updates b [] = (b, [])"
| "process_updates b (update # updates) =
     (let b1 = b\<lparr>offset := UpdateID update + 1\<rparr>;
          spawned = (case Message update of
                       None \<Rightarrow> []
                     | Some msg \<Rightarrow> [Go_handleMessage msg]);
          (b2, evs) = process_updates b1 updates
      in (b2, spawned @ evs))"

text \<open>
  One turn of the \<open>for\<close> loop sees the context twice: at the \<open>select\<close> (\<open>Some e\<close>
  when \<open>ctx.Done()\<close> is closed, \<open>e\<close> being \<open>ctx.Err()\<close>) and after a failed fetch.
  The loop runs on a script of such turns; when the script ends and \<open>Start\<close> has not
  returned, the result is \<open>None\<close>.
\<close>

record poll_env =
  ctx_at_select :: "ctx_error option"
  fetch :: "(Update list) call_env"
  ctx_after_fetch :: "ctx_error option"

fun poll :: "'h Bot \<Rightarrow> poll_env list \<Rightarrow> 'h Bot \<times> 'h event list \<times> go_error option" where
  "poll b [] = (b, [], None)"
| "poll b (turn # turns) =
     (case ctx_at_select turn of
        Some cerr \<Rightarrow>
          (b, [Log (''Shutdown se'' @ [CHR 0xC3, CHR 0xB1] @ ''alizado, cerrando bot...'')],
           Some (ContextError cerr))
      | None \<Rightarrow>
          (case getUpdates b (fetch turn) of
             (evs, Inl err) \<Rightarrow>
               (case ctx_after_fetch turn of
                  Some cerr \<Rightarrow> (b, evs, Some (ContextError cerr))
                | None \<Rightarrow>
                    (let (b', evs', r) = poll b turns
                     in (b', evs @ [Log (''Error obteniendo updates: '' @ Error err), Sleep 3]
                              @ evs', r)))
           | (evs, Inr updates) \<Rightarrow>
               (let (b1, spawned) = process_updates b updates;
                    (b', evs', r) = poll b1 turns
                in (b', evs @ spawned @ evs', r))))"

definition Start ::
  "'h Bot \<Rightarrow> User call_env \<Rightarrow> poll_env list \<Rightarrow> 'h Bot \<times> 'h event list \<times> go_error option" where
  "Start b me turns =
     (let (evs, err) = GetMe b me in
      case err of
        Some e \<Rightarrow>
          (b, Log ''Iniciando bot...'' # evs, Some (WrapError ''error verificando bot: '' e))
      | None \<Rightarrow>
          (let (b', evs', r) = poll b turns
           in (b', Log ''Iniciando bot...'' # evs
                   @ [Log ''Esperando mensajes... (Ctrl+C para detener)''] @ evs', r)))"

section \<open>The revision with a structured logger (src/unnamed/part_001)\<close>

text \<open>
  The second copy of bot.go differs from the first in its logging only: every failure of
  \<open>makeRequest\<close> is logged before it is returned, and the first statement of
  \<open>handleMessage\<close> reads \<open>msg.From.FirstName\<close> and then \<open>msg.Chat.ID\<close>. A call
  of the logger is the event \<open>Slog level message attributes\<close>; the bot is one that
  \<open>NewBot\<close> built, so it has a logger.
\<close>

definition log_error :: "string \<Rightarrow> string \<Rightarrow> go_error \<Rightarrow> 'h event" where
  "log_error message method err =
     Slog ''ERROR'' message [String ''method'' method, String ''error'' (Error err)]"

definition makeRequest_slog ::
  "'h Bot \<Rightarrow> 'a call_env \<Rightarrow> string \<Rightarrow> payload option \<Rightarrow> 'h event list \<times> (go_error + Response)" where
  "makeRequest_slog b env method pl =
     (let post = [Slog ''DEBUG'' ''Enviando request a Telegram API'' [String ''method'' method],
                  HttpPost (apiBaseURL b) (token b) method pl] in
      case (case pl of None \<Rightarrow> None | Some p \<Rightarrow> marshal_err env) of
        Some err \<Rightarrow>
          ([log_error ''Error marshaling payload'' method err],
           Inl (WrapError ''error marshaling payload: '' err))
      | None \<Rightarrow>
          (case http env of
             NewRequestFails err \<Rightarrow>
               ([log_error ''Error creating request'' method err],
                Inl (WrapError ''error creating request: '' err))
           | DoFails err \<Rightarrow>
               (post @ [log_error ''Error making request'' method err],
                Inl (WrapError ''error making request: '' err))
           | ReadFails err \<Rightarrow>
               (post @ [log_error ''Error reading response'' method err],
                Inl (WrapError ''error reading response: '' err))
           | UnmarshalFails err \<Rightarrow>
               (post @ [log_error ''Error unmarshaling response'' method err],
                Inl (WrapError ''error unmarshaling response: '' err))
           | Decoded apiResp \<Rightarrow>
               if \<not> Ok apiResp
               then (post @ [Slog ''ERROR'' ''API error response''
                               [String ''method'' method,
                                String ''description'' (Description apiResp)]],
                     Inl (ErrorString (''API error: '' @ Description apiResp)))
               else (post, Inr apiResp)))"

definition SendMessage_slog ::
  "'h Bot \<Rightarrow> 'a call_env \<Rightarrow> int64 \<Rightarrow> string \<Rightarrow> 'h event list \<times> go_error option" where
  "SendMessage_slog b env chatID text =
     (let pl = \<lparr>ChatID = chatID, ReqText = text\<rparr>;
          (evs, r) = makeRequest_slog b env ''sendMessage'' (Some (SendMessagePayload pl))
      in case r of Inl err \<Rightarrow> (evs, Some err) | Inr resp \<Rightarrow> (evs, None))"

definition handleMessage_slog ::
  "'h Bot \<Rightarrow> 'a call_env \<Rightarrow> Message \<Rightarrow> 'h event list \<times> completion" where
  "handleMessage_slog b env msg =
     (case From msg of
        None \<Rightarrow> ([], NilPointerPanic)
      | Some sender \<Rightarrow>
          (case Chat msg of
             None \<Rightarrow> ([], NilPointerPanic)
           | Some chat \<Rightarrow>
               (let received = Slog ''INFO'' ''Mensaje recibido''
                                 [String ''from'' (FirstName sender),
                                  Int64 ''chat_id'' (ID chat),
                                  String ''text'' (Text msg)] in
                if HasPrefix (Text msg) ''/'' then
                  (case commandRegistry b of
                     None \<Rightarrow> ([received], Returned)
                   | Some cr \<Rightarrow> (received # snd (Execute cr b msg), Returned))
                else if Text msg \<noteq> [] then
                  (let response = ''Recib'' @ [CHR 0xC3, CHR 0xAD] @ '' tu mensaje: '' @ Text msg;
                       (evs, err) = SendMessage_slog b env (ID chat) response
                   in case err of
                        Some e \<Rightarrow>
                          (received # evs @ [Slog ''ERROR'' ''Error enviando mensaje''
                                               [Int64 ''chat_id'' (ID chat),
                                                String ''error'' (Error e)]],
                           Returned)
                      | None \<Rightarrow> (received # evs, Returned))
                else ([received], Returned))))"

section \<open>Notions the properties are stated with\<close>

text \<open>The UTF-8 encodings of the runes that \<open>unicode.IsSpace\<close> accepts.\<close>

definition space_runes :: "string list" where
  "space_runes =
     [[CHR 0x09], [CHR 0x0A], [CHR 0x0B], [CHR 0x0C], [CHR 0x0D], [CHR 0x20],
      [CHR 0xC2, CHR 0x85], [CHR 0xC2, CHR 0xA0], [CHR 0xE1, CHR 0x9A, CHR 0x80],
      [CHR 0xE2, CHR 0x80, CHR 0x80], [CHR 0xE2, CHR 0x80, CHR 0x81],
      [CHR 0xE2, CHR 0x80, CHR 0x82], [CHR 0xE2, CHR 0x80, CHR 0x83],
      [CHR 0xE2, CHR 0x80, CHR 0x84], [CHR 0xE2, CHR 0x80, CHR 0x85],
      [CHR 0xE2, CHR 0x80, CHR 0x86], [CHR 0xE2, CHR 0x80, CHR 0x87],
      [CHR 0xE2, CHR 0x80, CHR 0x88], [CHR 0xE2, CHR 0x80, CHR 0x89],
      [CHR 0xE2, CHR 0x80, CHR 0x8A], [CHR 0xE2, CHR 0x80, CHR 0xA8],
      [CHR 0xE2, CHR 0x80, CHR 0xA9], [CHR 0xE2, CHR 0x80, CHR 0xAF],
      [CHR 0xE2, CHR 0x81, CHR 0x9F], [CHR 0xE3, CHR 0x80, CHR 0x80]]"

text \<open>
  Two decoders for the scripts of the examples: one yields the given value for every raw
  payload, the other fails with the given error.
\<close>

definition decodes_to :: "'a \<Rightarrow> string \<Rightarrow> go_error + 'a" where
  "decodes_to v raw = Inr v"

definition decoding_fails :: "go_error \<Rightarrow> string \<Rightarrow> go_error + 'a" where
  "decoding_fails e raw = Inl e"

text \<open>The offsets that the getUpdates requests of a run carry, in the order sent.\<close>

fun requested_offsets :: "'h event list \<Rightarrow> go_int list" where
  "requested_offsets [] = []"
| "requested_offsets (HttpPost base tok method (Some (Params off t)) # evs) =
     (if method = ''getUpdates'' then off # requested_offsets evs else requested_offsets evs)"
| "requested_offsets (ev # evs) = requested_offsets evs"

text \<open>
  A batch of updates as the remote API sends it to a bot whose offset is \<open>off\<close>:
  strictly ascending ids, none below \<open>off\<close>, in the signed order of \<open>int\<close>.
\<close>

definition ascending_batch :: "go_int \<Rightarrow> Update list \<Rightarrow> bool" where
  "ascending_batch off updates =
     (sorted_wrt (\<lambda>u v. sint (UpdateID u) < sint (UpdateID v)) updates
      \<and> (\<forall>u \<in> set updates. sint off \<le> sint (UpdateID u)))"

text \<open>The largest value of \<open>int\<close>; \<open>max_int + 1\<close> wraps around to the smallest.\<close>

definition max_int :: go_int where
  "max_int = 0x7FFFFFFFFFFFFFFF"

text \<open>
  A script in which every batch that the loop fetches is such a batch for the offset the
  loop has when it fetches it, and holds no update whose id is \<open>max_int\<close>. It follows
  the loop: nothing is asked of the turns after the one in which the loop returns.
\<close>

fun ascending_script :: "'h Bot \<Rightarrow> poll_env list \<Rightarrow> bool" where
  "ascending_script b [] = True"
| "ascending_script b (turn # turns) =
     (case ctx_at_select turn of
        Some cerr \<Rightarrow> True
      | None \<Rightarrow>
          (case snd (getUpdates b (fetch turn)) of
             Inl err \<Rightarrow>
               (case ctx_after_fetch turn of
                  Some cerr \<Rightarrow> True
                | None \<Rightarrow> ascending_script b turns)
           | Inr updates \<Rightarrow>
               ascending_batch (offset b) updates \<and> max_int \<notin> UpdateID ` set updates
               \<and> ascending_script (fst (process_updates b updates)) turns))"

section \<open>Properties of the command registry\<close>

subsection \<open>Splitting and fields\<close>

lemma Split_not_Nil: "Split s sep \<noteq> []"
  by (induction s) (auto split: list.splits)

lemma hd_Split: "hd (Split s sep) = takeWhile (\<lambda>c. c \<noteq> sep) s"
proof (induction s)
  case Nil
  show ?case by simp
next
  case (Cons c cs)
  then show ?case using Split_not_Nil [of cs sep]
    by (cases "Split cs sep") auto
qed

lemma space_width_plain:
  "\<not> asciiSpace c \<Longrightarrow> c \<noteq> CHR 0xC2 \<Longrightarrow> c \<noteq> CHR 0xE1 \<Longrightarrow> c \<noteq> CHR 0xE2 \<Longrightarrow> c \<noteq> CHR 0xE3
   \<Longrightarrow> space_width (c # rest) = 0"
  by (cases "c # rest" rule: space_width.cases) (auto simp: space3_def)

lemma space_width_slash: "space_width (CHR ''/'' # rest) = 0"
  by (rule space_width_plain) (simp_all add: asciiSpace_def)

lemma space_width_rune:
  "r \<in> set space_runes \<Longrightarrow> space_width (r @ rest) = length r \<and> r \<noteq> []"
  unfolding space_runes_def
  by (cases rest rule: list.exhaust; cases "tl rest")
     (auto simp: asciiSpace_def space3_def)

lemma fields_scan_rune:
  assumes "r \<in> set space_runes"
  shows "fields_scan tok (r @ rest) = (if tok = [] then [] else [tok]) @ fields_scan [] rest"
proof -
  from space_width_rune [OF assms, of rest]
  have w: "space_width (r @ rest) = length r" and ne: "r \<noteq> []" by simp_all
  from ne obtain c cs where r: "r = c # cs" by (cases r) auto
  have "fields_scan tok (c # (cs @ rest)) =
          (if tok = [] then [] else [tok]) @ fields_scan [] (drop (length r - 1) (cs @ rest))"
    using w r by simp
  then show ?thesis using r by simp
qed

lemma fields_scan_runes:
  "set rs \<subseteq> set space_runes \<Longrightarrow> tok \<noteq> [] \<Longrightarrow> fields_scan tok (concat rs) = [tok]"
proof (induction rs)
  case Nil
  then show ?case by simp
next
  case (Cons r rs)
  have "fields_scan [] (concat rs) = []" using Cons.prems(1)
  proof (induction rs)
    case Nil
    show ?case by simp
  next
    case (Cons q qs)
    then show ?case using fields_scan_rune [of q "[]" "concat qs"] by simp
  qed
  then show ?case using Cons.prems fields_scan_rune [of r tok "concat rs"] by simp
qed

lemma Fields_marker_space:
  "set rs \<subseteq> set space_runes \<Longrightarrow> Fields (CHR ''/'' # concat rs) = [''/'']"
  unfolding Fields_def
  using fields_scan_runes [of rs "''/''"] by (simp add: space_width_slash)

lemma length_fields_scan:
  "length (concat (fields_scan tok s)) \<le> length tok + length s"
proof (induction tok s rule: fields_scan.induct)
  case (1 tok)
  show ?case by simp
next
  case (2 tok c cs)
  show ?case
  proof (cases "space_width (c # cs) = 0")
    case True
    with 2 show ?thesis by simp
  next
    case False
    with 2 show ?thesis by (auto simp: le_diff_conv)
  qed
qed

lemma fields_scan_single:
  "fields_scan tok s = [tok @ s] \<Longrightarrow> fields_scan (p @ tok) s = [p @ tok @ s]"
proof (induction tok s rule: fields_scan.induct)
  case (1 tok)
  then show ?case by (auto split: if_splits)
next
  case (2 tok c cs)
  show ?case
  proof (cases "space_width (c # cs) = 0")
    case True
    with 2 show ?thesis by simp
  next
    case False
    show ?thesis
    proof (cases "tok = []")
      case True
      with False 2(3) have "fields_scan [] (drop (space_width (c # cs) - 1) cs) = [c # cs]"
        by simp
      with length_fields_scan [of "[]" "drop (space_width (c # cs) - 1) cs"]
      show ?thesis by simp
    next
      case False
      with \<open>space_width (c # cs) \<noteq> 0\<close> 2(3) show ?thesis by simp
    qed
  qed
qed

lemma Fields_marker_name:
  "Fields name = [name] \<Longrightarrow> Fields (CHR ''/'' # name) = [CHR ''/'' # name]"
  unfolding Fields_def
  using fields_scan_single [of "[]" name "''/''"] by (simp add: space_width_slash)

lemma fields_scan_not_Nil: "tok \<noteq> [] \<Longrightarrow> fields_scan tok s \<noteq> []"
  by (induction tok s rule: fields_scan.induct) auto

lemma Fields_marker_not_Nil: "HasPrefix s ''/'' \<Longrightarrow> Fields s \<noteq> []"
  by (cases s) (auto simp: HasPrefix_def Fields_def space_width_slash fields_scan_not_Nil)

lemma Execute_token:
  assumes "HasPrefix (Text msg) ''/''" and "Fields (Text msg) = tok # rest"
  shows "Execute cr b msg =
           (case registry cr (takeWhile (\<lambda>c. c \<noteq> CHR ''@'') (TrimPrefix tok ''/'')) of
              None \<Rightarrow> (False, [])
            | Some action \<Rightarrow> (True, [Invoke action b msg]))"
  using assms by (simp add: Execute_def hd_Split)

lemma Fields_start: "Fields ''/start'' = [''/start'']"
  and Fields_start_mybot: "Fields ''/start@mybot'' = [''/start@mybot'']"
  and Fields_start_args: "Fields ''/start arg1 arg2'' = [''/start'', ''arg1'', ''arg2'']"
  by (simp_all add: Fields_def asciiSpace_def space3_def)

subsection \<open>Commands that are registered\<close>

text \<open>
  C2. In every table that has a handler \<open>H\<close> under the name \<open>start\<close>, \<open>Execute\<close> on a
  message whose text is \<open>/start\<close>, \<open>/start@mybot\<close> or \<open>/start arg1 arg2\<close> returns
  true and calls \<open>H\<close> once, and nothing else, with the bot and the message it was given
  (the text with its arguments included). The same holds whenever the text starts with the
  marker and its first field is \<open>/start@\<close> followed by any selector: for every text
  that starts with the marker, the name looked up is the first piece that
  \<open>strings.Split\<close> on \<open>@\<close> makes of the first field without its marker, which is
  what stands before the first \<open>@\<close>.
\<close>

theorem Execute_start_registered:
  assumes "registry cr ''start'' = Some H"
  shows "(Text msg = ''/start'' \<or> Text msg = ''/start@mybot'' \<or> Text msg = ''/start arg1 arg2''
            \<longrightarrow> Execute cr b msg = (True, [Invoke H b msg]))
       \<and> (\<forall>selector rest.
            HasPrefix (Text msg) ''/'' \<and> Fields (Text msg) = (''/start@'' @ selector) # rest
            \<longrightarrow> Execute cr b msg = (True, [Invoke H b msg]))
       \<and> (\<forall>tok rest.
            HasPrefix (Text msg) ''/'' \<and> Fields (Text msg) = tok # rest
            \<longrightarrow> Execute cr b msg
                  = (case registry cr (hd (Split (TrimPrefix tok ''/'') (CHR ''@''))) of
                       None \<Rightarrow> (False, [])
                     | Some action \<Rightarrow> (True, [Invoke action b msg]))
                \<and> hd (Split (TrimPrefix tok ''/'') (CHR ''@''))
                    = takeWhile (\<lambda>c. c \<noteq> CHR ''@'') (TrimPrefix tok ''/''))"
proof (intro conjI allI impI)
  assume "Text msg = ''/start'' \<or> Text msg = ''/start@mybot'' \<or> Text msg = ''/start arg1 arg2''"
  then show "Execute cr b msg = (True, [Invoke H b msg])"
  proof (elim disjE)
    assume t: "Text msg = ''/start''"
    show ?thesis using assms Execute_token [of msg "''/start''" "[]" cr b]
      by (simp add: t Fields_start HasPrefix_def TrimPrefix_def)
  next
    assume t: "Text msg = ''/start@mybot''"
    show ?thesis using assms Execute_token [of msg "''/start@mybot''" "[]" cr b]
      by (simp add: t Fields_start_mybot HasPrefix_def TrimPrefix_def)
  next
    assume t: "Text msg = ''/start arg1 arg2''"
    show ?thesis using assms Execute_token [of msg "''/start''" "[''arg1'', ''arg2'']" cr b]
      by (simp add: t Fields_start_args HasPrefix_def TrimPrefix_def)
  qed
next
  fix selector rest
  assume "HasPrefix (Text msg) ''/'' \<and> Fields (Text msg) = (''/start@'' @ selector) # rest"
  then show "Execute cr b msg = (True, [Invoke H b msg])"
    using assms Execute_token [of msg "''/start@'' @ selector" rest cr b]
    by (simp add: HasPrefix_def TrimPrefix_def)
next
  fix tok rest
  assume "HasPrefix (Text msg) ''/'' \<and> Fields (Text msg) = tok # rest"
  then show "Execute cr b msg
                  = (case registry cr (hd (Split (TrimPrefix tok ''/'') (CHR ''@''))) of
                       None \<Rightarrow> (False, [])
                     | Some action \<Rightarrow> (True, [Invoke action b msg]))"
    using Execute_token [of msg tok rest cr b] by (simp add: hd_Split)
next
  fix tok
  show "hd (Split (TrimPrefix tok ''/'') (CHR ''@''))
          = takeWhile (\<lambda>c. c \<noteq> CHR ''@'') (TrimPrefix tok ''/'')"
    by (rule hd_Split)
qed

theorem Execute_start_registered_witness:
  "registry (Register NewCommandRegistry ''start'' (1::nat)) ''start'' = Some 1
   \<and> Execute (Register NewCommandRegistry ''start'' (1::nat))
        \<lparr>token = ''t'', offset = 0, commandRegistry = None, apiBaseURL = ''u''\<rparr>
        \<lparr>MessageID = 1, From = None, Chat = None, Date = 0, Text = ''/start arg1 arg2''\<rparr>
     = (True, [Invoke 1 \<lparr>token = ''t'', offset = 0, commandRegistry = None, apiBaseURL = ''u''\<rparr>
                \<lparr>MessageID = 1, From = None, Chat = None, Date = 0, Text = ''/start arg1 arg2''\<rparr>])"
  using Execute_start_registered [of "Register NewCommandRegistry ''start'' (1::nat)" 1
      "\<lparr>MessageID = 1, From = None, Chat = None, Date = 0, Text = ''/start arg1 arg2''\<rparr>"
      "\<lparr>token = ''t'', offset = 0, commandRegistry = None, apiBaseURL = ''u''\<rparr>"]
  by (simp add: Register_def NewCommandRegistry_def)

subsection \<open>Texts that hold no command\<close>

text \<open>
  C3, as stated, fails for the marker alone: the text \<open>/\<close> has one field, the marker
  itself, and the name looked up is the empty string; a table with a handler under the
  empty name runs it.
\<close>

theorem Execute_marker_only_counterexample:
  "Execute \<lparr>registry = [[] \<mapsto> (1::nat)]\<rparr>
     \<lparr>token = ''t'', offset = 0, commandRegistry = None, apiBaseURL = ''u''\<rparr>
     \<lparr>MessageID = 1, From = None, Chat = None, Date = 0, Text = ''/''\<rparr>
   = (True, [Invoke 1 \<lparr>token = ''t'', offset = 0, commandRegistry = None, apiBaseURL = ''u''\<rparr>
                \<lparr>MessageID = 1, From = None, Chat = None, Date = 0, Text = ''/''\<rparr>])"
  by (simp add: Execute_def HasPrefix_def TrimPrefix_def Fields_def asciiSpace_def space3_def)

text \<open>
  C3, amended. For every table, \<open>Execute\<close> returns false and calls no handler when the
  text is empty or does not start with the marker. A text that starts with the marker
  always has a first field, so the branch for no fields is never taken. When the text is
  the marker alone or the marker followed by white-space runes only, its only field is the
  marker, the name looked up is the empty string, and \<open>Execute\<close> returns false and calls
  no handler exactly when the table has nothing under the empty name; otherwise it calls
  that handler and returns true.
\<close>

theorem Execute_no_command:
  "(Text msg = [] \<or> \<not> HasPrefix (Text msg) ''/'' \<longrightarrow> Execute cr b msg = (False, []))
   \<and> (HasPrefix (Text msg) ''/'' \<longrightarrow> Fields (Text msg) \<noteq> [])
   \<and> (set rs \<subseteq> set space_runes \<and> Text msg = CHR ''/'' # concat rs \<longrightarrow>
        Fields (Text msg) = [''/'']
        \<and> Execute cr b msg = (case registry cr [] of
                                None \<Rightarrow> (False, [])
                              | Some H \<Rightarrow> (True, [Invoke H b msg])))"
proof (intro conjI impI)
  assume "Text msg = [] \<or> \<not> HasPrefix (Text msg) ''/''"
  then have "\<not> HasPrefix (Text msg) ''/''" by (auto simp: HasPrefix_def)
  then show "Execute cr b msg = (False, [])" by (simp add: Execute_def)
next
  assume "HasPrefix (Text msg) ''/''"
  then show "Fields (Text msg) \<noteq> []" by (rule Fields_marker_not_Nil)
next
  assume a: "set rs \<subseteq> set space_runes \<and> Text msg = CHR ''/'' # concat rs"
  then show f: "Fields (Text msg) = [''/'']" by (simp add: Fields_marker_space)
  from a have "HasPrefix (Text msg) ''/''" by (simp add: HasPrefix_def)
  from Execute_token [OF this f, of cr b]
  show "Execute cr b msg = (case registry cr [] of
                              None \<Rightarrow> (False, [])
                            | Some H \<Rightarrow> (True, [Invoke H b msg]))"
    by (simp add: TrimPrefix_def HasPrefix_def)
qed

theorem Execute_no_command_witness:
  "set [[CHR 0x20], [CHR 0x09], [CHR 0xC2, CHR 0xA0]] \<subseteq> set space_runes
   \<and> Execute (Register NewCommandRegistry ''start'' (1::nat))
        \<lparr>token = ''t'', offset = 0, commandRegistry = None, apiBaseURL = ''u''\<rparr>
        \<lparr>MessageID = 1, From = None, Chat = None, Date = 0,
         Text = [CHR ''/'', CHR 0x20, CHR 0x09, CHR 0xC2, CHR 0xA0]\<rparr>
     = (False, [])
   \<and> Execute (Register NewCommandRegistry ''start'' (1::nat))
        \<lparr>token = ''t'', offset = 0, commandRegistry = None, apiBaseURL = ''u''\<rparr>
        \<lparr>MessageID = 1, From = None, Chat = None, Date = 0, Text = ''start''\<rparr>
     = (False, [])"
  using
    Execute_no_command [of
      "\<lparr>MessageID = 1, From = None, Chat = None, Date = 0,
         Text = [CHR ''/'', CHR 0x20, CHR 0x09, CHR 0xC2, CHR 0xA0]\<rparr>"
      "Register NewCommandRegistry ''start'' (1::nat)"
      "\<lparr>token = ''t'', offset = 0, commandRegistry = None, apiBaseURL = ''u''\<rparr>"
      "[[CHR 0x20], [CHR 0x09], [CHR 0xC2, CHR 0xA0]]"]
    Execute_no_command [of
      "\<lparr>MessageID = 1, From = None, Chat = None, Date = 0, Text = ''start''\<rparr>"
      "Register NewCommandRegistry ''start'' (1::nat)"
      "\<lparr>token = ''t'', offset = 0, commandRegistry = None, apiBaseURL = ''u''\<rparr>" "[]"]
  by (simp add: Register_def NewCommandRegistry_def HasPrefix_def space_runes_def)

subsection \<open>Registering a name twice\<close>

text \<open>
  C9. After \<open>H1\<close> and then \<open>H2\<close> are registered under one name, the table maps the name
  to \<open>H2\<close> and to nothing else, it has the keys it had after the first registration, and it
  is the table of before with \<open>H2\<close> under the name (registering returns no error: it is
  total). \<open>Execute\<close> of a message whose command is that name (the text starts with the
  marker and the first field, without marker and selector, is the name; in particular the
  text is the marker followed by the name, for a name that is one field and has no
  \<open>@\<close>) returns true and its only call is \<open>H2\<close>.
\<close>

theorem Register_overwrite:
  "registry (Register (Register cr name H1) name H2) name = Some H2
   \<and> {h. registry (Register (Register cr name H1) name H2) name = Some h} = {H2}
   \<and> dom (registry (Register (Register cr name H1) name H2))
       = dom (registry (Register cr name H1))
   \<and> registry (Register (Register cr name H1) name H2) = (registry cr)(name \<mapsto> H2)
   \<and> (HasPrefix (Text msg) ''/'' \<and> Fields (Text msg) = tok # rest
        \<and> takeWhile (\<lambda>c. c \<noteq> CHR ''@'') (TrimPrefix tok ''/'') = name
      \<longrightarrow> Execute (Register (Register cr name H1) name H2) b msg = (True, [Invoke H2 b msg]))
   \<and> (Fields name = [name] \<and> CHR ''@'' \<notin> set name \<and> Text msg = CHR ''/'' # name
      \<longrightarrow> Execute (Register (Register cr name H1) name H2) b msg = (True, [Invoke H2 b msg]))"
proof (intro conjI impI)
  show "registry (Register (Register cr name H1) name H2) name = Some H2"
    by (simp add: Register_def)
  show "{h. registry (Register (Register cr name H1) name H2) name = Some h} = {H2}"
    by (auto simp: Register_def)
  show "dom (registry (Register (Register cr name H1) name H2))
          = dom (registry (Register cr name H1))"
    by (auto simp: Register_def)
  show "registry (Register (Register cr name H1) name H2) = (registry cr)(name \<mapsto> H2)"
    by (simp add: Register_def)
next
  assume a: "HasPrefix (Text msg) ''/'' \<and> Fields (Text msg) = tok # rest
             \<and> takeWhile (\<lambda>c. c \<noteq> CHR ''@'') (TrimPrefix tok ''/'') = name"
  then have "HasPrefix (Text msg) ''/''" and "Fields (Text msg) = tok # rest" by simp_all
  from Execute_token [OF this, of "Register (Register cr name H1) name H2" b] a
  show "Execute (Register (Register cr name H1) name H2) b msg = (True, [Invoke H2 b msg])"
    by (simp add: Register_def)
next
  assume a: "Fields name = [name] \<and> CHR ''@'' \<notin> set name \<and> Text msg = CHR ''/'' # name"
  then have p: "HasPrefix (Text msg) ''/''" by (simp add: HasPrefix_def)
  from a have f: "Fields (Text msg) = [CHR ''/'' # name]" by (simp add: Fields_marker_name)
  from a have "takeWhile (\<lambda>c. c \<noteq> CHR ''@'') name = name" by (auto simp: takeWhile_eq_all_conv)
  with Execute_token [OF p f, of "Register (Register cr name H1) name H2" b]
  show "Execute (Register (Register cr name H1) name H2) b msg = (True, [Invoke H2 b msg])"
    by (simp add: Register_def TrimPrefix_def HasPrefix_def)
qed

theorem Register_overwrite_witness:
  "Fields ''help'' = [''help''] \<and> CHR ''@'' \<notin> set ''help''
   \<and> Execute (Register (Register NewCommandRegistry ''help'' (1::nat)) ''help'' 2)
        \<lparr>token = ''t'', offset = 0, commandRegistry = None, apiBaseURL = ''u''\<rparr>
        \<lparr>MessageID = 1, From = None, Chat = None, Date = 0, Text = ''/help''\<rparr>
     = (True, [Invoke 2 \<lparr>token = ''t'', offset = 0, commandRegistry = None, apiBaseURL = ''u''\<rparr>
                \<lparr>MessageID = 1, From = None, Chat = None, Date = 0, Text = ''/help''\<rparr>])"
proof -
  have f: "Fields ''help'' = [''help'']"
    by (simp add: Fields_def asciiSpace_def space3_def)
  show ?thesis
    using f Register_overwrite [of NewCommandRegistry "''help''" "1::nat" 2
        "\<lparr>MessageID = 1, From = None, Chat = None, Date = 0, Text = ''/help''\<rparr>" "[]" "[]"
        "\<lparr>token = ''t'', offset = 0, commandRegistry = None, apiBaseURL = ''u''\<rparr>"]
    by simp
qed

section \<open>Properties of the bot\<close>

subsection \<open>Integers, requests and batches\<close>

lemma sint_succ:
  fixes x :: go_int
  assumes "x \<noteq> max_int"
  shows "sint (x + 1) = sint x + 1"
proof -
  have ub: "sint x < 2 ^ 63" using sint_lt [of x] by simp
  have lb: "- (2 ^ 63) \<le> sint x" using sint_ge [of x] by simp
  have "sint x \<noteq> 2 ^ 63 - 1"
  proof
    assume "sint x = 2 ^ 63 - 1"
    then have "sint x = sint max_int" by (simp add: max_int_def)
    then have "x = max_int" by (rule signed_word_eqI)
    with assms show False by simp
  qed
  with ub have "sint x + 1 < 2 ^ 63" by simp
  with lb show ?thesis
    by (simp add: sint_word_ariths signed_take_bit_int_eq_self)
qed

lemma makeRequest_Inr:
  "snd (makeRequest b env method pl) = Inr resp \<Longrightarrow> Ok resp \<and> http env = Decoded resp"
  by (auto simp: makeRequest_def Let_def split: option.splits http_outcome.splits if_splits)

lemma makeRequest_not_ok:
  "http env = Decoded r \<Longrightarrow> \<not> Ok r \<Longrightarrow> pl = None \<or> marshal_err env = None
   \<Longrightarrow> makeRequest b env method pl
       = ([HttpPost (apiBaseURL b) (token b) method pl],
          Inl (ErrorString (''API error: '' @ Description r)))"
  by (auto simp: makeRequest_def Let_def split: option.splits)

lemma makeRequest_fails:
  "http env = Decoded r \<Longrightarrow> \<not> Ok r \<Longrightarrow> isl (snd (makeRequest b env method pl))"
  by (auto simp: makeRequest_def Let_def split: option.splits)

lemma makeRequest_events:
  "fst (makeRequest b env method pl) = []
   \<or> fst (makeRequest b env method pl) = [HttpPost (apiBaseURL b) (token b) method pl]"
  by (auto simp: makeRequest_def Let_def split: option.splits http_outcome.splits)

lemma makeRequest_posts:
  "(pl = None \<or> marshal_err env = None) \<Longrightarrow> (\<And>e. http env \<noteq> NewRequestFails e)
   \<Longrightarrow> fst (makeRequest b env method pl) = [HttpPost (apiBaseURL b) (token b) method pl]"
  by (auto simp: makeRequest_def Let_def split: option.splits http_outcome.splits)

lemma makeRequest_error_kind:
  "snd (makeRequest b env method pl) = Inl err \<Longrightarrow> err \<noteq> ContextError cerr"
  by (auto simp: makeRequest_def Let_def split: option.splits http_outcome.splits if_splits)

lemma makeRequest_slog_result:
  "snd (makeRequest_slog b env method pl) = snd (makeRequest b env method pl)"
  by (auto simp: makeRequest_def makeRequest_slog_def Let_def
           split: option.splits http_outcome.splits)

lemma getUpdates_events:
  "fst (getUpdates b env) = fst (makeRequest b env ''getUpdates'' (Some (Params (offset b) timeout)))"
  by (simp add: getUpdates_def Let_def split_beta split: sum.splits)

lemma getUpdates_result:
  "snd (getUpdates b env) =
     (case snd (makeRequest b env ''getUpdates'' (Some (Params (offset b) timeout))) of
        Inl err \<Rightarrow> Inl err
      | Inr resp \<Rightarrow>
          (case json_Unmarshal env (Result resp) of
             Inl err \<Rightarrow> Inl (WrapError ''error unmarshaling updates: '' err)
           | Inr updates \<Rightarrow> Inr updates))"
  by (simp add: getUpdates_def Let_def split_beta split: sum.splits)

lemma getUpdates_error_kind: "snd (getUpdates b env) = Inl err \<Longrightarrow> err \<noteq> ContextError cerr"
  using makeRequest_error_kind [of b env "''getUpdates''" "Some (Params (offset b) timeout)"]
  by (auto simp: getUpdates_result split: sum.splits)

lemma getUpdates_requested:
  "requested_offsets (fst (getUpdates b env)) = []
   \<or> requested_offsets (fst (getUpdates b env)) = [offset b]"
  using makeRequest_events [of b env "''getUpdates''" "Some (Params (offset b) timeout)"]
  by (auto simp: getUpdates_events)

lemma GetMe_events:
  "ev \<in> set (fst (GetMe b me))
   \<Longrightarrow> ev = HttpPost (apiBaseURL b) (token b) ''getMe'' None \<or> (\<exists>s. ev = Log s)"
  using makeRequest_events [of b me "''getMe''" None]
  by (auto simp: GetMe_def Let_def split_beta split: sum.splits)

lemma requested_offsets_append:
  "requested_offsets (xs @ ys) = requested_offsets xs @ requested_offsets ys"
  by (induction xs rule: requested_offsets.induct) auto

lemma requested_offsets_none:
  "(\<And>base tok pl. HttpPost base tok ''getUpdates'' pl \<notin> set evs) \<Longrightarrow> requested_offsets evs = []"
  by (induction evs rule: requested_offsets.induct) auto

lemma process_updates_bot:
  "fst (process_updates b us) =
     (if us = [] then b else b\<lparr>offset := UpdateID (last us) + 1\<rparr>)"
  by (induction us arbitrary: b) (auto simp: Let_def split_beta)

lemma process_updates_events:
  "snd (process_updates b us) = map Go_handleMessage (List.map_filter Message us)"
  by (induction us arbitrary: b) (auto simp: Let_def split_beta split: option.splits)

lemma process_updates_requested: "requested_offsets (snd (process_updates b us)) = []"
  by (rule requested_offsets_none) (auto simp: process_updates_events)

lemma Execute_events:
  "snd (Execute cr b msg) = [] \<or> (\<exists>H. snd (Execute cr b msg) = [Invoke H b msg])"
  by (auto simp: Execute_def Let_def split: list.splits option.splits)

lemma SendMessage_events:
  "fst (SendMessage b env chatID text) = []
   \<or> fst (SendMessage b env chatID text)
       = [HttpPost (apiBaseURL b) (token b) ''sendMessage''
            (Some (SendMessagePayload \<lparr>ChatID = chatID, ReqText = text\<rparr>))]"
  using makeRequest_events [of b env "''sendMessage''"
      "Some (SendMessagePayload \<lparr>ChatID = chatID, ReqText = text\<rparr>)"]
  by (auto simp: SendMessage_def Let_def split_beta split: sum.splits)

lemma SendMessage_posts:
  "marshal_err env = None \<Longrightarrow> (\<And>e. http env \<noteq> NewRequestFails e)
   \<Longrightarrow> fst (SendMessage b env chatID text)
       = [HttpPost (apiBaseURL b) (token b) ''sendMessage''
            (Some (SendMessagePayload \<lparr>ChatID = chatID, ReqText = text\<rparr>))]"
  using makeRequest_posts [of "Some (SendMessagePayload \<lparr>ChatID = chatID, ReqText = text\<rparr>)"
      env b "''sendMessage''"]
  by (auto simp: SendMessage_def Let_def split_beta split: sum.splits)

lemma getUpdates_posts:
  "marshal_err env = None \<Longrightarrow> (\<And>e. http env \<noteq> NewRequestFails e)
   \<Longrightarrow> fst (getUpdates b env)
       = [HttpPost (apiBaseURL b) (token b) ''getUpdates'' (Some (Params (offset b) timeout))]"
  using makeRequest_posts [of "Some (Params (offset b) timeout)" env b "''getUpdates''"]
  by (simp add: getUpdates_events)

lemma getUpdates_no_sleep: "Sleep n \<notin> set (fst (getUpdates b env))"
  using makeRequest_events [of b env "''getUpdates''" "Some (Params (offset b) timeout)"]
  by (auto simp: getUpdates_events)

subsection \<open>The turns of the loop\<close>

lemma poll_cancelled:
  "ctx_at_select turn = Some cerr
   \<Longrightarrow> poll b (turn # turns)
       = (b, [Log (''Shutdown se'' @ [CHR 0xC3, CHR 0xB1] @ ''alizado, cerrando bot...'')],
          Some (ContextError cerr))"
  by simp

lemma poll_error_cancelled:
  "ctx_at_select turn = None \<Longrightarrow> snd (getUpdates b (fetch turn)) = Inl err
   \<Longrightarrow> ctx_after_fetch turn = Some cerr
   \<Longrightarrow> poll b (turn # turns) = (b, fst (getUpdates b (fetch turn)), Some (ContextError cerr))"
  by (cases "getUpdates b (fetch turn)") simp

lemma poll_error_retry:
  "ctx_at_select turn = None \<Longrightarrow> snd (getUpdates b (fetch turn)) = Inl err
   \<Longrightarrow> ctx_after_fetch turn = None
   \<Longrightarrow> poll b (turn # turns)
       = (fst (poll b turns),
          fst (getUpdates b (fetch turn))
            @ [Log (''Error obteniendo updates: '' @ Error err), Sleep 3]
            @ fst (snd (poll b turns)),
          snd (snd (poll b turns)))"
  by (cases "getUpdates b (fetch turn)") (simp add: split_beta)

lemma poll_fetched:
  "ctx_at_select turn = None \<Longrightarrow> snd (getUpdates b (fetch turn)) = Inr updates
   \<Longrightarrow> poll b (turn # turns)
       = (fst (poll (fst (process_updates b updates)) turns),
          fst (getUpdates b (fetch turn)) @ snd (process_updates b updates)
            @ fst (snd (poll (fst (process_updates b updates)) turns)),
          snd (snd (poll (fst (process_updates b updates)) turns)))"
  by (cases "getUpdates b (fetch turn)") (simp add: split_beta)

lemma poll_cases:
  obtains (cancelled) cerr where "ctx_at_select turn = Some cerr"
  | (error_cancelled) err cerr where "ctx_at_select turn = None"
      "snd (getUpdates b (fetch turn)) = Inl err" "ctx_after_fetch turn = Some cerr"
  | (error_retry) err where "ctx_at_select turn = None"
      "snd (getUpdates b (fetch turn)) = Inl err" "ctx_after_fetch turn = None"
  | (fetched) updates where "ctx_at_select turn = None"
      "snd (getUpdates b (fetch turn)) = Inr updates"
  by (cases "ctx_at_select turn"; cases "snd (getUpdates b (fetch turn))";
      cases "ctx_after_fetch turn") auto

declare poll.simps(2) [simp del]

lemma poll_append:
  "poll b (xs @ ys) =
     (case snd (snd (poll b xs)) of
        Some r \<Rightarrow> poll b xs
      | None \<Rightarrow>
          (fst (poll (fst (poll b xs)) ys),
           fst (snd (poll b xs)) @ fst (snd (poll (fst (poll b xs)) ys)),
           snd (snd (poll (fst (poll b xs)) ys))))"
proof (induction xs arbitrary: b)
  case Nil
  show ?case by simp
next
  case (Cons turn turns)
  show ?case
  proof (cases rule: poll_cases [where turn = turn and b = b])
    case (cancelled cerr)
    then show ?thesis by (simp add: poll_cancelled)
  next
    case (error_cancelled err cerr)
    then show ?thesis by (simp add: poll_error_cancelled [OF error_cancelled])
  next
    case (error_retry err)
    show ?thesis
      using Cons.IH [of b]
      by (simp add: poll_error_retry [OF error_retry] split: option.splits)
  next
    case (fetched updates)
    show ?thesis
      using Cons.IH [of "fst (process_updates b updates)"]
      by (simp add: poll_fetched [OF fetched] split: option.splits)
  qed
qed

lemma poll_result: "snd (snd (poll b turns)) = Some r \<Longrightarrow> \<exists>cerr. r = ContextError cerr"
proof (induction turns arbitrary: b)
  case Nil
  then show ?case by simp
next
  case (Cons turn turns)
  show ?case
  proof (cases rule: poll_cases [where turn = turn and b = b])
    case (cancelled cerr)
    with Cons.prems show ?thesis by (auto simp: poll_cancelled)
  next
    case (error_cancelled err cerr)
    with Cons.prems show ?thesis by (auto simp: poll_error_cancelled [OF error_cancelled])
  next
    case (error_retry err)
    with Cons.prems show ?thesis
      using Cons.IH [of b] by (simp add: poll_error_retry [OF error_retry])
  next
    case (fetched updates)
    with Cons.prems show ?thesis
      using Cons.IH [of "fst (process_updates b updates)"]
      by (simp add: poll_fetched [OF fetched])
  qed
qed

lemma Start_trace:
  "Start b me turns =
     (case snd (GetMe b me) of
        Some e \<Rightarrow> (b, Log ''Iniciando bot...'' # fst (GetMe b me),
                   Some (WrapError ''error verificando bot: '' e))
      | None \<Rightarrow> (fst (poll b turns),
                 Log ''Iniciando bot...'' # fst (GetMe b me)
                   @ [Log ''Esperando mensajes... (Ctrl+C para detener)'']
                   @ fst (snd (poll b turns)),
                 snd (snd (poll b turns))))"
  by (simp add: Start_def split_beta split: option.splits)

lemma poll_first_events:
  "ctx_at_select turn = None
   \<Longrightarrow> \<exists>rest. fst (snd (poll b (turn # turns))) = fst (getUpdates b (fetch turn)) @ rest"
proof (cases rule: poll_cases [where turn = turn and b = b])
  case (cancelled cerr)
  assume "ctx_at_select turn = None"
  with cancelled show ?thesis by simp
next
  case (error_cancelled err cerr)
  then show ?thesis by (simp add: poll_error_cancelled [OF error_cancelled])
next
  case (error_retry err)
  then show ?thesis by (simp add: poll_error_retry [OF error_retry])
next
  case (fetched updates)
  then show ?thesis by (simp add: poll_fetched [OF fetched])
qed

lemma poll_all_errors:
  "(\<forall>t \<in> set turns. ctx_at_select t = None \<and> ctx_after_fetch t = None
                      \<and> isl (snd (getUpdates b (fetch t))))
   \<Longrightarrow> snd (snd (poll b turns)) = None \<and> fst (poll b turns) = b
       \<and> length (filter (\<lambda>ev. ev = Sleep 3) (fst (snd (poll b turns)))) = length turns"
proof (induction turns)
  case Nil
  show ?case by simp
next
  case (Cons turn turns)
  then have c: "ctx_at_select turn = None" and a: "ctx_after_fetch turn = None"
    and "isl (snd (getUpdates b (fetch turn)))" by simp_all
  then obtain err where e: "snd (getUpdates b (fetch turn)) = Inl err"
    by (cases "snd (getUpdates b (fetch turn))") auto
  have "filter (\<lambda>ev. ev = Sleep 3) (fst (getUpdates b (fetch turn))) = []"
    using getUpdates_no_sleep [of 3 b "fetch turn"] by (auto simp: filter_empty_conv)
  then show ?case using Cons by (simp add: poll_error_retry [OF c e a])
qed

lemma GetMe_no_sleep: "Sleep n \<notin> set (fst (GetMe b me))"
  using GetMe_events [of "Sleep n" b me] by auto

lemma poll_all_errors_events:
  "(\<forall>t \<in> set turns. ctx_at_select t = None \<and> ctx_after_fetch t = None
                      \<and> isl (snd (getUpdates b (fetch t))))
   \<Longrightarrow> fst (snd (poll b turns))
       = concat (map (\<lambda>t. fst (getUpdates b (fetch t))
                            @ [Log (''Error obteniendo updates: ''
                                    @ Error (projl (snd (getUpdates b (fetch t))))),
                               Sleep 3]) turns)"
proof (induction turns)
  case Nil
  show ?case by simp
next
  case (Cons turn turns)
  then have c: "ctx_at_select turn = None" and a: "ctx_after_fetch turn = None"
    and "isl (snd (getUpdates b (fetch turn)))" by simp_all
  then obtain err where e: "snd (getUpdates b (fetch turn)) = Inl err"
    by (cases "snd (getUpdates b (fetch turn))") auto
  show ?case using Cons by (simp add: poll_error_retry [OF c e a] e)
qed

subsection \<open>An envelope that is not ok\<close>

text \<open>
  C8. When the envelope that \<open>makeRequest\<close> decodes has \<open>ok = false\<close>,
  \<open>makeRequest\<close> returns the error whose message is \<open>API error: \<close> followed by the
  envelope's description (in both revisions of bot.go); it returns an error on such an
  envelope in any case, and a response it returns has \<open>ok = true\<close>. So \<open>GetMe\<close>,
  \<open>SendMessage\<close> and \<open>getUpdates\<close> return an error on such an envelope, and that
  very error when the payload was serialised.
\<close>

theorem api_error_envelope:
  "(http env = Decoded r \<and> \<not> Ok r \<and> (pl = None \<or> marshal_err env = None)
      \<longrightarrow> snd (makeRequest b env method pl) = Inl (ErrorString (''API error: '' @ Description r))
          \<and> snd (makeRequest_slog b env method pl)
              = Inl (ErrorString (''API error: '' @ Description r))
          \<and> Error (ErrorString (''API error: '' @ Description r)) = ''API error: '' @ Description r)
   \<and> (http env = Decoded r \<and> \<not> Ok r
      \<longrightarrow> isl (snd (makeRequest b env method pl)) \<and> isl (snd (makeRequest_slog b env method pl)))
   \<and> (snd (makeRequest b env method pl) = Inr resp \<or> snd (makeRequest_slog b env method pl) = Inr resp
      \<longrightarrow> Ok resp)
   \<and> (http me = Decoded r \<and> \<not> Ok r
      \<longrightarrow> snd (GetMe b me) = Some (ErrorString (''API error: '' @ Description r)))
   \<and> (http send = Decoded r \<and> \<not> Ok r
      \<longrightarrow> snd (SendMessage b send chatID text) \<noteq> None
          \<and> (marshal_err send = None
               \<longrightarrow> snd (SendMessage b send chatID text)
                   = Some (ErrorString (''API error: '' @ Description r))))
   \<and> (http upd = Decoded r \<and> \<not> Ok r
      \<longrightarrow> isl (snd (getUpdates b upd))
          \<and> (marshal_err upd = None
               \<longrightarrow> snd (getUpdates b upd) = Inl (ErrorString (''API error: '' @ Description r))))"
proof (intro conjI impI)
  assume a: "http env = Decoded r \<and> \<not> Ok r \<and> (pl = None \<or> marshal_err env = None)"
  then show "snd (makeRequest b env method pl) = Inl (ErrorString (''API error: '' @ Description r))"
    by (simp add: makeRequest_not_ok)
  with a show "snd (makeRequest_slog b env method pl)
                = Inl (ErrorString (''API error: '' @ Description r))"
    by (simp add: makeRequest_slog_result)
  show "Error (ErrorString (''API error: '' @ Description r)) = ''API error: '' @ Description r"
    by simp
next
  assume a: "http env = Decoded r \<and> \<not> Ok r"
  then show "isl (snd (makeRequest b env method pl))" by (simp add: makeRequest_fails)
  with a show "isl (snd (makeRequest_slog b env method pl))"
    by (simp add: makeRequest_slog_result)
next
  assume "snd (makeRequest b env method pl) = Inr resp
          \<or> snd (makeRequest_slog b env method pl) = Inr resp"
  then have "snd (makeRequest b env method pl) = Inr resp"
    by (simp add: makeRequest_slog_result)
  then show "Ok resp" by (simp add: makeRequest_Inr)
next
  assume "http me = Decoded r \<and> \<not> Ok r"
  then show "snd (GetMe b me) = Some (ErrorString (''API error: '' @ Description r))"
    by (simp add: GetMe_def makeRequest_not_ok)
next
  assume a: "http send = Decoded r \<and> \<not> Ok r"
  then have "isl (snd (makeRequest b send ''sendMessage''
                         (Some (SendMessagePayload \<lparr>ChatID = chatID, ReqText = text\<rparr>))))"
    by (simp add: makeRequest_fails)
  then show "snd (SendMessage b send chatID text) \<noteq> None"
    by (auto simp: SendMessage_def Let_def split_beta split: sum.splits)
  assume "marshal_err send = None"
  with a show "snd (SendMessage b send chatID text)
                 = Some (ErrorString (''API error: '' @ Description r))"
    by (simp add: SendMessage_def makeRequest_not_ok)
next
  assume a: "http upd = Decoded r \<and> \<not> Ok r"
  then have "isl (snd (makeRequest b upd ''getUpdates'' (Some (Params (offset b) timeout))))"
    by (simp add: makeRequest_fails)
  then show "isl (snd (getUpdates b upd))"
    by (auto simp: getUpdates_result split: sum.splits)
  assume "marshal_err upd = None"
  with a show "snd (getUpdates b upd) = Inl (ErrorString (''API error: '' @ Description r))"
    by (simp add: getUpdates_result makeRequest_not_ok)
qed

theorem api_error_envelope_witness:
  "snd (GetMe \<lparr>token = ''t'', offset = 0, commandRegistry = None :: nat CommandRegistry option,
               apiBaseURL = ''u''\<rparr>
          \<lparr>marshal_err = None,
           http = Decoded \<lparr>Ok = False, Result = [], Description = ''Unauthorized''\<rparr>,
           json_Unmarshal = decoding_fails (ErrorString ''unexpected end of JSON input'')\<rparr>)
   = Some (ErrorString ''API error: Unauthorized'')"
  using api_error_envelope [where
      me = "\<lparr>marshal_err = None,
              http = Decoded \<lparr>Ok = False, Result = [], Description = ''Unauthorized''\<rparr>,
              json_Unmarshal = decoding_fails (ErrorString ''unexpected end of JSON input'')\<rparr>"
      and r = "\<lparr>Ok = False, Result = [], Description = ''Unauthorized''\<rparr>"
      and b = "\<lparr>token = ''t'', offset = 0, commandRegistry = None :: nat CommandRegistry option,
               apiBaseURL = ''u''\<rparr>",
      THEN conjunct2, THEN conjunct2, THEN conjunct2, THEN conjunct1]
  by simp

subsection \<open>A message without sender\<close>

text \<open>
  C10. \<open>handleMessage\<close> reads \<open>msg.From.FirstName\<close> for its first log line, before it
  looks at the text: on every message whose \<open>From\<close> is nil it stops in a nil pointer
  panic and has done nothing (in both revisions of bot.go). It returns only on messages
  whose \<open>From\<close> is present.
\<close>

theorem handleMessage_nil_From:
  "(From msg = None
      \<longrightarrow> handleMessage b env msg = ([], NilPointerPanic)
          \<and> handleMessage_slog b env msg = ([], NilPointerPanic))
   \<and> (snd (handleMessage b env msg) = Returned \<or> snd (handleMessage_slog b env msg) = Returned
      \<longrightarrow> From msg \<noteq> None)"
  by (auto simp: handleMessage_def handleMessage_slog_def split: option.splits)

theorem handleMessage_nil_From_witness:
  "handleMessage
     \<lparr>token = ''t'', offset = 0, commandRegistry = None :: nat CommandRegistry option,
      apiBaseURL = ''u''\<rparr>
     \<lparr>marshal_err = None, http = Decoded \<lparr>Ok = True, Result = [], Description = []\<rparr>,
      json_Unmarshal = (Inr :: string \<Rightarrow> go_error + string)\<rparr>
     \<lparr>MessageID = 1, From = None,
      Chat = Some \<lparr>ID = 123, Type = ''channel'', Title = ''news'', Username = []\<rparr>,
      Date = 0, Text = ''/start''\<rparr>
   = ([], NilPointerPanic)"
  using handleMessage_nil_From [of
      "\<lparr>MessageID = 1, From = None,
        Chat = Some \<lparr>ID = 123, Type = ''channel'', Title = ''news'', Username = []\<rparr>,
        Date = 0, Text = ''/start''\<rparr>"
      "\<lparr>token = ''t'', offset = 0, commandRegistry = None :: nat CommandRegistry option,
        apiBaseURL = ''u''\<rparr>"
      "\<lparr>marshal_err = None, http = Decoded \<lparr>Ok = True, Result = [], Description = []\<rparr>,
        json_Unmarshal = (Inr :: string \<Rightarrow> go_error + string)\<rparr>"]
  by simp

subsection \<open>The three cases of handleMessage\<close>

text \<open>
  C7. The claim is that \<open>handleMessage\<close> splits in three cases on the text of every
  message, and echoes a text that is not empty and no command with one reply to the chat.
  On a message without sender the code does not: the text \<open>hola\<close> of a channel post
  (chat present, \<open>From\<close> nil) is not echoed, \<open>handleMessage\<close> stops in the nil
  pointer panic of \<open>msg.From.FirstName\<close> before it looks at the text, in both revisions
  of bot.go, and has done nothing. The same message with a sender is logged and echoed
  with one request to the chat.
\<close>

theorem handleMessage_without_sender:
  "handleMessage
     \<lparr>token = ''t'', offset = 0, commandRegistry = None :: nat CommandRegistry option,
      apiBaseURL = ''u''\<rparr>
     \<lparr>marshal_err = None, http = Decoded \<lparr>Ok = True, Result = [], Description = []\<rparr>,
      json_Unmarshal = (Inr :: string \<Rightarrow> go_error + string)\<rparr>
     \<lparr>MessageID = 1, From = None,
      Chat = Some \<lparr>ID = 123, Type = ''channel'', Title = ''news'', Username = []\<rparr>,
      Date = 0, Text = ''hola''\<rparr>
   = ([], NilPointerPanic)
   \<and> handleMessage_slog
     \<lparr>token = ''t'', offset = 0, commandRegistry = None :: nat CommandRegistry option,
      apiBaseURL = ''u''\<rparr>
     \<lparr>marshal_err = None, http = Decoded \<lparr>Ok = True, Result = [], Description = []\<rparr>,
      json_Unmarshal = (Inr :: string \<Rightarrow> go_error + string)\<rparr>
     \<lparr>MessageID = 1, From = None,
      Chat = Some \<lparr>ID = 123, Type = ''channel'', Title = ''news'', Username = []\<rparr>,
      Date = 0, Text = ''hola''\<rparr>
   = ([], NilPointerPanic)
   \<and> handleMessage
     \<lparr>token = ''t'', offset = 0, commandRegistry = None :: nat CommandRegistry option,
      apiBaseURL = ''u''\<rparr>
     \<lparr>marshal_err = None, http = Decoded \<lparr>Ok = True, Result = [], Description = []\<rparr>,
      json_Unmarshal = (Inr :: string \<Rightarrow> go_error + string)\<rparr>
     \<lparr>MessageID = 1,
      From = Some \<lparr>UserID = 7, FirstName = ''Ana'', LastName = [], UserUsername = []\<rparr>,
      Chat = Some \<lparr>ID = 123, Type = ''channel'', Title = ''news'', Username = []\<rparr>,
      Date = 0, Text = ''hola''\<rparr>
   = ([Log ''Mensaje de Ana: hola'',
       HttpPost ''u'' ''t'' ''sendMessage''
         (Some (SendMessagePayload
                  \<lparr>ChatID = 123,
                   ReqText = ''Recib'' @ [CHR 0xC3, CHR 0xAD] @ '' tu mensaje: hola''\<rparr>))],
      Returned)"
  by (simp add: handleMessage_def handleMessage_slog_def HasPrefix_def SendMessage_def
                makeRequest_def)

text \<open>
  Where the sender is present, \<open>handleMessage\<close> of src/bot/bot.go writes its log line
  and goes through the three cases: a text that starts with the marker is left to
  \<open>Execute\<close> of the registry (to nothing when there is none) and no request is sent; a
  text that is not empty, in a message that has its chat, is echoed by one call of
  \<open>SendMessage\<close> for the chat's id, whose failure is logged and not returned; on the
  empty text nothing more is done.
\<close>

lemma handleMessage_cases:
  assumes "From msg = Some sender"
  shows
   "(HasPrefix (Text msg) ''/'' \<longrightarrow>
       handleMessage b env msg
         = (Log (''Mensaje de '' @ FirstName sender @ '': '' @ Text msg)
              # (case commandRegistry b of None \<Rightarrow> [] | Some cr \<Rightarrow> snd (Execute cr b msg)),
            Returned)
       \<and> (\<forall>base tok method pl. HttpPost base tok method pl \<notin> set (fst (handleMessage b env msg))))
    \<and> (\<not> HasPrefix (Text msg) ''/'' \<and> Text msg \<noteq> [] \<and> Chat msg = Some chat \<longrightarrow>
       handleMessage b env msg
         = (Log (''Mensaje de '' @ FirstName sender @ '': '' @ Text msg)
              # fst (SendMessage b env (ID chat)
                       (''Recib'' @ [CHR 0xC3, CHR 0xAD] @ '' tu mensaje: '' @ Text msg))
              @ (case snd (SendMessage b env (ID chat)
                             (''Recib'' @ [CHR 0xC3, CHR 0xAD] @ '' tu mensaje: '' @ Text msg)) of
                   None \<Rightarrow> []
                 | Some e \<Rightarrow> [Log (''Error enviando mensaje: '' @ Error e)]),
            Returned)
       \<and> (fst (SendMessage b env (ID chat)
                  (''Recib'' @ [CHR 0xC3, CHR 0xAD] @ '' tu mensaje: '' @ Text msg)) = []
          \<or> fst (SendMessage b env (ID chat)
                  (''Recib'' @ [CHR 0xC3, CHR 0xAD] @ '' tu mensaje: '' @ Text msg))
              = [HttpPost (apiBaseURL b) (token b) ''sendMessage''
                   (Some (SendMessagePayload
                            \<lparr>ChatID = ID chat,
                             ReqText = ''Recib'' @ [CHR 0xC3, CHR 0xAD] @ '' tu mensaje: ''
                                        @ Text msg\<rparr>))])
       \<and> (marshal_err env = None \<and> (\<forall>e. http env \<noteq> NewRequestFails e) \<longrightarrow>
            fst (SendMessage b env (ID chat)
                  (''Recib'' @ [CHR 0xC3, CHR 0xAD] @ '' tu mensaje: '' @ Text msg))
              = [HttpPost (apiBaseURL b) (token b) ''sendMessage''
                   (Some (SendMessagePayload
                            \<lparr>ChatID = ID chat,
                             ReqText = ''Recib'' @ [CHR 0xC3, CHR 0xAD] @ '' tu mensaje: ''
                                        @ Text msg\<rparr>))]))
    \<and> (Text msg = [] \<longrightarrow>
       handleMessage b env msg
         = ([Log (''Mensaje de '' @ FirstName sender @ '': '' @ Text msg)], Returned))"
proof (intro conjI impI allI)
  assume p: "HasPrefix (Text msg) ''/''"
  with assms show h: "handleMessage b env msg
         = (Log (''Mensaje de '' @ FirstName sender @ '': '' @ Text msg)
              # (case commandRegistry b of None \<Rightarrow> [] | Some cr \<Rightarrow> snd (Execute cr b msg)),
            Returned)"
    by (simp add: handleMessage_def split: option.splits)
  fix base tok m pl
  show "HttpPost base tok m pl \<notin> set (fst (handleMessage b env msg))"
  proof (cases "commandRegistry b")
    case None
    with h show ?thesis by simp
  next
    case (Some cr)
    with h Execute_events [of cr b msg] show ?thesis by auto
  qed
next
  assume a: "\<not> HasPrefix (Text msg) ''/'' \<and> Text msg \<noteq> [] \<and> Chat msg = Some chat"
  with assms show "handleMessage b env msg
         = (Log (''Mensaje de '' @ FirstName sender @ '': '' @ Text msg)
              # fst (SendMessage b env (ID chat)
                       (''Recib'' @ [CHR 0xC3, CHR 0xAD] @ '' tu mensaje: '' @ Text msg))
              @ (case snd (SendMessage b env (ID chat)
                             (''Recib'' @ [CHR 0xC3, CHR 0xAD] @ '' tu mensaje: '' @ Text msg)) of
                   None \<Rightarrow> []
                 | Some e \<Rightarrow> [Log (''Error enviando mensaje: '' @ Error e)]),
            Returned)"
    by (simp add: handleMessage_def Let_def split_beta split: option.splits)
  show "fst (SendMessage b env (ID chat)
                  (''Recib'' @ [CHR 0xC3, CHR 0xAD] @ '' tu mensaje: '' @ Text msg)) = []
          \<or> fst (SendMessage b env (ID chat)
                  (''Recib'' @ [CHR 0xC3, CHR 0xAD] @ '' tu mensaje: '' @ Text msg))
              = [HttpPost (apiBaseURL b) (token b) ''sendMessage''
                   (Some (SendMessagePayload
                            \<lparr>ChatID = ID chat,
                             ReqText = ''Recib'' @ [CHR 0xC3, CHR 0xAD] @ '' tu mensaje: ''
                                        @ Text msg\<rparr>))]"
    by (rule SendMessage_events)
  assume "marshal_err env = None \<and> (\<forall>e. http env \<noteq> NewRequestFails e)"
  then show "fst (SendMessage b env (ID chat)
                  (''Recib'' @ [CHR 0xC3, CHR 0xAD] @ '' tu mensaje: '' @ Text msg))
              = [HttpPost (apiBaseURL b) (token b) ''sendMessage''
                   (Some (SendMessagePayload
                            \<lparr>ChatID = ID chat,
                             ReqText = ''Recib'' @ [CHR 0xC3, CHR 0xAD] @ '' tu mensaje: ''
                                        @ Text msg\<rparr>))]"
    by (intro SendMessage_posts) simp_all
next
  assume "Text msg = []"
  with assms show "handleMessage b env msg
         = ([Log (''Mensaje de '' @ FirstName sender @ '': '' @ Text msg)], Returned)"
    by (simp add: handleMessage_def HasPrefix_def)
qed

subsection \<open>Start: the identity check\<close>

text \<open>
  C5. When \<open>GetMe\<close> fails with the error \<open>e\<close>, \<open>Start\<close> returns the error
  \<open>error verificando bot: \<close> that wraps \<open>e\<close>, whatever the turns the loop would have
  seen: its run is the run on no turn at all, the bot is unchanged, and its events are the
  first log line and those of \<open>GetMe\<close>, among which is no getUpdates request.
\<close>

theorem Start_GetMe_fails:
  assumes "snd (GetMe b me) = Some e"
  shows "Start b me turns
           = (b, Log ''Iniciando bot...'' # fst (GetMe b me),
              Some (WrapError ''error verificando bot: '' e))
       \<and> Unwrap (WrapError ''error verificando bot: '' e) = Some e
       \<and> Start b me turns = Start b me []
       \<and> (\<forall>base tok pl. HttpPost base tok ''getUpdates'' pl \<notin> set (fst (snd (Start b me turns))))
       \<and> (\<forall>ev \<in> set (fst (snd (Start b me turns))).
             ev = HttpPost (apiBaseURL b) (token b) ''getMe'' None \<or> (\<exists>s. ev = Log s))"
proof (intro conjI allI ballI)
  show s: "Start b me turns
           = (b, Log ''Iniciando bot...'' # fst (GetMe b me),
              Some (WrapError ''error verificando bot: '' e))"
    using assms by (simp add: Start_trace)
  show "Unwrap (WrapError ''error verificando bot: '' e) = Some e" by simp
  show "Start b me turns = Start b me []" using assms by (simp add: Start_trace)
  show "HttpPost base tok ''getUpdates'' pl \<notin> set (fst (snd (Start b me turns)))" for base tok pl
    using GetMe_events [of "HttpPost base tok ''getUpdates'' pl" b me] by (auto simp: s)
  show "ev = HttpPost (apiBaseURL b) (token b) ''getMe'' None \<or> (\<exists>s. ev = Log s)"
    if "ev \<in> set (fst (snd (Start b me turns)))" for ev
    using that GetMe_events [of ev b me] by (auto simp: s)
qed

theorem Start_GetMe_fails_witness:
  "Start \<lparr>token = ''t'', offset = 0, commandRegistry = None :: nat CommandRegistry option,
          apiBaseURL = ''u''\<rparr>
     \<lparr>marshal_err = None,
      http = Decoded \<lparr>Ok = False, Result = [], Description = ''Unauthorized''\<rparr>,
      json_Unmarshal = decoding_fails (ErrorString ''unexpected end of JSON input'')\<rparr>
     [\<lparr>ctx_at_select = None,
       fetch = \<lparr>marshal_err = None,
                http = Decoded \<lparr>Ok = True, Result = ''[]'', Description = []\<rparr>,
                json_Unmarshal = decodes_to []\<rparr>,
       ctx_after_fetch = None\<rparr>]
   = (\<lparr>token = ''t'', offset = 0, commandRegistry = None, apiBaseURL = ''u''\<rparr>,
      [Log ''Iniciando bot...'', HttpPost ''u'' ''t'' ''getMe'' None],
      Some (WrapError ''error verificando bot: '' (ErrorString ''API error: Unauthorized'')))"
proof -
  have g: "GetMe \<lparr>token = ''t'', offset = 0, commandRegistry = None :: nat CommandRegistry option,
                apiBaseURL = ''u''\<rparr>
             \<lparr>marshal_err = None,
              http = Decoded \<lparr>Ok = False, Result = [], Description = ''Unauthorized''\<rparr>,
              json_Unmarshal = decoding_fails (ErrorString ''unexpected end of JSON input'')\<rparr>
           = ([HttpPost ''u'' ''t'' ''getMe'' None], Some (ErrorString ''API error: Unauthorized''))"
    by (simp add: GetMe_def makeRequest_def decodes_to_def decoding_fails_def)
  then have h: "snd (GetMe \<lparr>token = ''t'', offset = 0,
                          commandRegistry = None :: nat CommandRegistry option,
                          apiBaseURL = ''u''\<rparr>
             \<lparr>marshal_err = None,
              http = Decoded \<lparr>Ok = False, Result = [], Description = ''Unauthorized''\<rparr>,
              json_Unmarshal = decoding_fails (ErrorString ''unexpected end of JSON input'')\<rparr>)
           = Some (ErrorString ''API error: Unauthorized'')"
    by simp
  show ?thesis
    using Start_GetMe_fails [OF h, THEN conjunct1] by (simp add: g)
qed

subsection \<open>Start: cancellation before the fetch error\<close>

text \<open>
  C4. Let the identity check pass and the loop still run after the turns \<open>before\<close>. If in
  the next turn the context is not done at the \<open>select\<close>, \<open>getUpdates\<close> returns an
  error, and the context is cancelled by then with \<open>ctx.Err() = cerr\<close>, then the loop
  stops at once and \<open>Start\<close> returns \<open>cerr\<close> itself: not the fetch error (which is
  never a context error value), not a wrapped error, and never what \<open>Start\<close> returns when
  the identity check fails.
\<close>

theorem Start_cancelled_fetch_error:
  assumes "snd (GetMe b me) = None"
      and "poll b before = (b1, evs1, None)"
      and "ctx_at_select turn = None"
      and "snd (getUpdates b1 (fetch turn)) = Inl err"
      and "ctx_after_fetch turn = Some cerr"
  shows "poll b1 (turn # after) = (b1, fst (getUpdates b1 (fetch turn)), Some (ContextError cerr))
       \<and> snd (snd (Start b me (before @ turn # after))) = Some (ContextError cerr)
       \<and> ContextError cerr \<noteq> err
       \<and> (\<forall>prefix cause. ContextError cerr \<noteq> WrapError prefix cause)
       \<and> (\<forall>b' me' turns' e. snd (GetMe b' me') = Some e
              \<longrightarrow> snd (snd (Start (b' :: 'h Bot) me' turns')) \<noteq> Some (ContextError cerr))"
proof (intro conjI allI impI)
  show p: "poll b1 (turn # after)
             = (b1, fst (getUpdates b1 (fetch turn)), Some (ContextError cerr))"
    using assms(3-5) by (rule poll_error_cancelled)
  show "snd (snd (Start b me (before @ turn # after))) = Some (ContextError cerr)"
    using assms(1,2) by (simp add: Start_trace poll_append p)
  show "ContextError cerr \<noteq> err"
    using getUpdates_error_kind [OF assms(4), of cerr] by simp
  show "ContextError cerr \<noteq> WrapError prefix cause" for prefix cause by simp
  show "snd (snd (Start b' me' turns')) \<noteq> Some (ContextError cerr)"
    if "snd (GetMe b' me') = Some e" for b' :: "'h Bot" and me' turns' e
    using that by (simp add: Start_trace)
qed

theorem Start_cancelled_fetch_error_witness:
  "Start \<lparr>token = ''t'', offset = 0, commandRegistry = None :: nat CommandRegistry option,
          apiBaseURL = ''u''\<rparr>
     \<lparr>marshal_err = None,
      http = Decoded \<lparr>Ok = True, Result = ''{}'', Description = []\<rparr>,
      json_Unmarshal =
        decodes_to \<lparr>UserID = 1, FirstName = ''Bot'', LastName = [], UserUsername = ''bot''\<rparr>\<rparr>
     [\<lparr>ctx_at_select = None,
       fetch = \<lparr>marshal_err = None,
                http = DoFails (WrapError ''Post: '' (ContextError Canceled)),
                json_Unmarshal = decodes_to []\<rparr>,
       ctx_after_fetch = Some Canceled\<rparr>]
   = (\<lparr>token = ''t'', offset = 0, commandRegistry = None, apiBaseURL = ''u''\<rparr>,
      [Log ''Iniciando bot...'', HttpPost ''u'' ''t'' ''getMe'' None, Log ''Bot iniciado: @bot (Bot)'',
       Log ''Esperando mensajes... (Ctrl+C para detener)'',
       HttpPost ''u'' ''t'' ''getUpdates'' (Some (Params 0 60))],
      Some (ContextError Canceled))"
proof -
  let ?b = "\<lparr>token = ''t'', offset = 0, commandRegistry = None :: nat CommandRegistry option,
             apiBaseURL = ''u''\<rparr>"
  let ?me = "\<lparr>marshal_err = None,
              http = Decoded \<lparr>Ok = True, Result = ''{}'', Description = []\<rparr>,
              json_Unmarshal =
                decodes_to (\<lparr>UserID = 1, FirstName = ''Bot'', LastName = [],
                               UserUsername = ''bot''\<rparr>)\<rparr>"
  let ?f = "\<lparr>marshal_err = None,
             http = DoFails (WrapError ''Post: '' (ContextError Canceled)),
             json_Unmarshal = decodes_to ([] :: Update list)\<rparr>"
  let ?turn = "\<lparr>ctx_at_select = None, fetch = ?f, ctx_after_fetch = Some Canceled\<rparr>"
  let ?err = "WrapError ''error making request: '' (WrapError ''Post: '' (ContextError Canceled))"
  have g: "GetMe ?b ?me = ([HttpPost ''u'' ''t'' ''getMe'' None, Log ''Bot iniciado: @bot (Bot)''], None)"
    by (simp add: GetMe_def makeRequest_def decodes_to_def decoding_fails_def)
  have u: "getUpdates ?b ?f = ([HttpPost ''u'' ''t'' ''getUpdates'' (Some (Params 0 60))], Inl ?err)"
    by (simp add: getUpdates_def makeRequest_def timeout_def decodes_to_def)
  have "poll ?b (?turn # [])
          = (?b, fst (getUpdates ?b (fetch ?turn)), Some (ContextError Canceled))"
    using Start_cancelled_fetch_error [of ?b ?me "[]" ?b "[]" ?turn ?err Canceled "[]",
        THEN conjunct1]
    by (simp add: g u)
  then show ?thesis by (simp add: Start_trace g u)
qed

subsection \<open>Start: fetch errors are retried\<close>

text \<open>
  C6. Let the identity check pass and the loop still run after the turns \<open>before\<close>. A
  turn in which \<open>getUpdates\<close> fails while the context is not cancelled makes \<open>Start\<close>
  write the log line of the error and pause for 3 seconds, right after the events of the
  failed fetch; the bot is left as it is, and \<open>Start\<close> goes on with the turns after it
  as the loop does from that bot: its result is theirs, and when the context is not done
  at the next turn, the next events are those of a new fetch. On a script of any length
  made of such turns only, the run of \<open>Start\<close> is the lines of the start followed, for
  every turn, by the events of the fetch, the log line of its error and the pause (one
  pause per turn), with the bot unchanged and no return (the result is \<open>None\<close>). The
  same holds of the loop alone. Whenever \<open>Start\<close> returns, it returns a context error or
  the wrapped error of the failed identity check.
\<close>

theorem fetch_error_retried:
  "(snd (GetMe b me) = None \<and> poll b before = (b1, evs1, None)
      \<and> ctx_at_select turn = None \<and> snd (getUpdates b1 (fetch turn)) = Inl err
      \<and> ctx_after_fetch turn = None
    \<longrightarrow> Start b me (before @ turn # after)
          = (fst (poll b1 after),
             Log ''Iniciando bot...'' # fst (GetMe b me)
               @ [Log ''Esperando mensajes... (Ctrl+C para detener)''] @ evs1
               @ fst (getUpdates b1 (fetch turn))
               @ [Log (''Error obteniendo updates: '' @ Error err), Sleep 3]
               @ fst (snd (poll b1 after)),
             snd (snd (poll b1 after)))
        \<and> (\<forall>next_turn rest. after = next_turn # rest \<and> ctx_at_select next_turn = None
             \<longrightarrow> (\<exists>evs. fst (snd (poll b1 after)) = fst (getUpdates b1 (fetch next_turn)) @ evs)))
   \<and> (snd (GetMe b me) = None
      \<and> (\<forall>t \<in> set turns. ctx_at_select t = None \<and> ctx_after_fetch t = None
                            \<and> isl (snd (getUpdates b (fetch t))))
    \<longrightarrow> Start b me turns
          = (b,
             Log ''Iniciando bot...'' # fst (GetMe b me)
               @ [Log ''Esperando mensajes... (Ctrl+C para detener)'']
               @ concat (map (\<lambda>t. fst (getUpdates b (fetch t))
                                    @ [Log (''Error obteniendo updates: ''
                                            @ Error (projl (snd (getUpdates b (fetch t))))),
                                       Sleep 3]) turns),
             None)
        \<and> length (filter (\<lambda>ev. ev = Sleep 3) (fst (snd (Start b me turns)))) = length turns)
   \<and> (ctx_at_select turn = None \<and> snd (getUpdates b (fetch turn)) = Inl err
      \<and> ctx_after_fetch turn = None
    \<longrightarrow> poll b (turn # turns)
          = (fst (poll b turns),
             fst (getUpdates b (fetch turn))
               @ [Log (''Error obteniendo updates: '' @ Error err), Sleep 3]
               @ fst (snd (poll b turns)),
             snd (snd (poll b turns))))
   \<and> ((\<forall>t \<in> set turns. ctx_at_select t = None \<and> ctx_after_fetch t = None
                          \<and> isl (snd (getUpdates b (fetch t))))
      \<longrightarrow> snd (snd (poll b turns)) = None \<and> fst (poll b turns) = b
          \<and> length (filter (\<lambda>ev. ev = Sleep 3) (fst (snd (poll b turns)))) = length turns
          \<and> (snd (GetMe b me) = None \<longrightarrow> snd (snd (Start b me turns)) = None))
   \<and> (snd (snd (Start b me turns)) = Some r
      \<longrightarrow> (\<exists>cerr. r = ContextError cerr)
          \<or> (\<exists>e. snd (GetMe b me) = Some e \<and> r = WrapError ''error verificando bot: '' e))"
proof (intro conjI impI allI)
  assume a: "snd (GetMe b me) = None \<and> poll b before = (b1, evs1, None)
      \<and> ctx_at_select turn = None \<and> snd (getUpdates b1 (fetch turn)) = Inl err
      \<and> ctx_after_fetch turn = None"
  then have t: "ctx_at_select turn = None" "snd (getUpdates b1 (fetch turn)) = Inl err"
    "ctx_after_fetch turn = None" by simp_all
  from a show "Start b me (before @ turn # after)
          = (fst (poll b1 after),
             Log ''Iniciando bot...'' # fst (GetMe b me)
               @ [Log ''Esperando mensajes... (Ctrl+C para detener)''] @ evs1
               @ fst (getUpdates b1 (fetch turn))
               @ [Log (''Error obteniendo updates: '' @ Error err), Sleep 3]
               @ fst (snd (poll b1 after)),
             snd (snd (poll b1 after)))"
    by (simp add: Start_trace poll_append poll_error_retry [OF t])
  fix next_turn rest
  assume "after = next_turn # rest \<and> ctx_at_select next_turn = None"
  then show "\<exists>evs. fst (snd (poll b1 after)) = fst (getUpdates b1 (fetch next_turn)) @ evs"
    using poll_first_events [of next_turn b1 rest] by auto
next
  assume a: "snd (GetMe b me) = None
      \<and> (\<forall>t \<in> set turns. ctx_at_select t = None \<and> ctx_after_fetch t = None
                            \<and> isl (snd (getUpdates b (fetch t))))"
  then have f: "\<forall>t \<in> set turns. ctx_at_select t = None \<and> ctx_after_fetch t = None
                            \<and> isl (snd (getUpdates b (fetch t)))" by simp
  from a poll_all_errors [OF f] poll_all_errors_events [OF f]
  show "Start b me turns
          = (b,
             Log ''Iniciando bot...'' # fst (GetMe b me)
               @ [Log ''Esperando mensajes... (Ctrl+C para detener)'']
               @ concat (map (\<lambda>t. fst (getUpdates b (fetch t))
                                    @ [Log (''Error obteniendo updates: ''
                                            @ Error (projl (snd (getUpdates b (fetch t))))),
                                       Sleep 3]) turns),
             None)"
    by (simp add: Start_trace)
  have "filter (\<lambda>ev. ev = Sleep 3) (fst (GetMe b me)) = []"
    using GetMe_no_sleep [of 3 b me] by (auto simp: filter_empty_conv)
  with a poll_all_errors [OF f]
  show "length (filter (\<lambda>ev. ev = Sleep 3) (fst (snd (Start b me turns)))) = length turns"
    by (simp add: Start_trace)
next
  assume "ctx_at_select turn = None \<and> snd (getUpdates b (fetch turn)) = Inl err
          \<and> ctx_after_fetch turn = None"
  then show "poll b (turn # turns)
          = (fst (poll b turns),
             fst (getUpdates b (fetch turn))
               @ [Log (''Error obteniendo updates: '' @ Error err), Sleep 3]
               @ fst (snd (poll b turns)),
             snd (snd (poll b turns)))"
    by (intro poll_error_retry) simp_all
next
  assume a: "\<forall>t \<in> set turns. ctx_at_select t = None \<and> ctx_after_fetch t = None
                          \<and> isl (snd (getUpdates b (fetch t)))"
  from poll_all_errors [OF a]
  show n: "snd (snd (poll b turns)) = None" and "fst (poll b turns) = b"
    and "length (filter (\<lambda>ev. ev = Sleep 3) (fst (snd (poll b turns)))) = length turns"
    by simp_all
  assume "snd (GetMe b me) = None"
  with n show "snd (snd (Start b me turns)) = None" by (simp add: Start_trace)
next
  assume s: "snd (snd (Start b me turns)) = Some r"
  show "(\<exists>cerr. r = ContextError cerr)
          \<or> (\<exists>e. snd (GetMe b me) = Some e \<and> r = WrapError ''error verificando bot: '' e)"
  proof (cases "snd (GetMe b me)")
    case None
    with s have "snd (snd (poll b turns)) = Some r" by (simp add: Start_trace)
    then show ?thesis by (auto dest: poll_result)
  next
    case (Some e)
    with s show ?thesis by (auto simp: Start_trace)
  qed
qed

theorem fetch_error_retried_witness:
  "Start \<lparr>token = ''t'', offset = 5, commandRegistry = None :: nat CommandRegistry option,
          apiBaseURL = ''u''\<rparr>
     \<lparr>marshal_err = None,
      http = Decoded \<lparr>Ok = True, Result = ''{}'', Description = []\<rparr>,
      json_Unmarshal =
        decodes_to \<lparr>UserID = 1, FirstName = ''Bot'', LastName = [], UserUsername = ''bot''\<rparr>\<rparr>
     [\<lparr>ctx_at_select = None,
       fetch = \<lparr>marshal_err = None,
                http = Decoded \<lparr>Ok = False, Result = [], Description = ''Conflict''\<rparr>,
                json_Unmarshal = decodes_to []\<rparr>,
       ctx_after_fetch = None\<rparr>,
      \<lparr>ctx_at_select = None,
       fetch = \<lparr>marshal_err = None,
                http = DoFails (ErrorString ''connection refused''),
                json_Unmarshal = decodes_to []\<rparr>,
       ctx_after_fetch = None\<rparr>]
   = (\<lparr>token = ''t'', offset = 5, commandRegistry = None, apiBaseURL = ''u''\<rparr>,
      [Log ''Iniciando bot...'', HttpPost ''u'' ''t'' ''getMe'' None, Log ''Bot iniciado: @bot (Bot)'',
       Log ''Esperando mensajes... (Ctrl+C para detener)'',
       HttpPost ''u'' ''t'' ''getUpdates'' (Some (Params 5 60)),
       Log ''Error obteniendo updates: API error: Conflict'', Sleep 3,
       HttpPost ''u'' ''t'' ''getUpdates'' (Some (Params 5 60)),
       Log ''Error obteniendo updates: error making request: connection refused'', Sleep 3],
      None)"
proof -
  let ?b = "\<lparr>token = ''t'', offset = 5, commandRegistry = None :: nat CommandRegistry option,
             apiBaseURL = ''u''\<rparr>"
  let ?me = "\<lparr>marshal_err = None,
              http = Decoded \<lparr>Ok = True, Result = ''{}'', Description = []\<rparr>,
              json_Unmarshal =
                decodes_to \<lparr>UserID = 1, FirstName = ''Bot'', LastName = [],
                            UserUsername = ''bot''\<rparr>\<rparr>"
  let ?f1 = "\<lparr>marshal_err = None,
              http = Decoded \<lparr>Ok = False, Result = [], Description = ''Conflict''\<rparr>,
              json_Unmarshal = decodes_to ([] :: Update list)\<rparr>"
  let ?f2 = "\<lparr>marshal_err = None, http = DoFails (ErrorString ''connection refused''),
              json_Unmarshal = decodes_to ([] :: Update list)\<rparr>"
  let ?t1 = "\<lparr>ctx_at_select = None, fetch = ?f1, ctx_after_fetch = None\<rparr>"
  let ?t2 = "\<lparr>ctx_at_select = None, fetch = ?f2, ctx_after_fetch = None\<rparr>"
  have g: "GetMe ?b ?me = ([HttpPost ''u'' ''t'' ''getMe'' None, Log ''Bot iniciado: @bot (Bot)''], None)"
    by (simp add: GetMe_def makeRequest_def decodes_to_def)
  have u1: "getUpdates ?b ?f1
              = ([HttpPost ''u'' ''t'' ''getUpdates'' (Some (Params 5 60))],
                 Inl (ErrorString ''API error: Conflict''))"
    by (simp add: getUpdates_def makeRequest_def timeout_def decodes_to_def)
  have u2: "getUpdates ?b ?f2
              = ([HttpPost ''u'' ''t'' ''getUpdates'' (Some (Params 5 60))],
                 Inl (WrapError ''error making request: '' (ErrorString ''connection refused'')))"
    by (simp add: getUpdates_def makeRequest_def timeout_def decodes_to_def)
  show ?thesis
    using fetch_error_retried [where b = ?b and me = ?me and turns = "[?t1, ?t2]",
        THEN conjunct2, THEN conjunct1]
    by (simp add: g u1 u2)
qed

subsection \<open>Start: the offset\<close>

lemma sorted_wrt_last:
  fixes f :: "'a \<Rightarrow> int"
  shows "sorted_wrt (\<lambda>u v. f u < f v) us \<Longrightarrow> u \<in> set us \<Longrightarrow> f u \<le> f (last us)"
proof (induction us)
  case Nil
  then show ?case by simp
next
  case (Cons x xs)
  show ?case
  proof (cases "xs = []")
    case True
    with Cons.prems show ?thesis by simp
  next
    case False
    then have l: "last xs \<in> set xs" by simp
    from Cons.prems(1) have "f x < f (last xs)" using l by simp
    moreover have "u \<in> set xs \<Longrightarrow> f u \<le> f (last xs)" using Cons by simp
    ultimately show ?thesis using Cons.prems(2) False by auto
  qed
qed

lemma batch_offset:
  assumes "ascending_batch (offset b) us" and "max_int \<notin> UpdateID ` set us"
  shows "sint (offset b) \<le> sint (offset (fst (process_updates b us)))"
    and "us \<noteq> [] \<Longrightarrow> sint (offset (fst (process_updates b us))) = sint (UpdateID (last us)) + 1"
    and "u \<in> set us \<Longrightarrow> sint (UpdateID u) < sint (offset (fst (process_updates b us)))"
proof -
  have step: "sint (UpdateID (last us) + 1) = sint (UpdateID (last us)) + 1" if "us \<noteq> []"
  proof (rule sint_succ)
    from that have "last us \<in> set us" by simp
    with assms(2) show "UpdateID (last us) \<noteq> max_int" by (metis imageI)
  qed
  show "sint (offset b) \<le> sint (offset (fst (process_updates b us)))"
  proof (cases "us = []")
    case True
    then show ?thesis by simp
  next
    case False
    then have "last us \<in> set us" by simp
    with assms(1) have "sint (offset b) \<le> sint (UpdateID (last us))"
      by (simp add: ascending_batch_def)
    with step [OF False] False show ?thesis by (simp add: process_updates_bot)
  qed
  show "sint (offset (fst (process_updates b us))) = sint (UpdateID (last us)) + 1" if "us \<noteq> []"
    using that step by (simp add: process_updates_bot)
  show "sint (UpdateID u) < sint (offset (fst (process_updates b us)))" if "u \<in> set us"
  proof -
    from that have ne: "us \<noteq> []" by auto
    from assms(1) that have "sint (UpdateID u) \<le> sint (UpdateID (last us))"
      using sorted_wrt_last [of "\<lambda>u. sint (UpdateID u)" us u] by (simp add: ascending_batch_def)
    with step [OF ne] ne show ?thesis by (simp add: process_updates_bot)
  qed
qed

lemma poll_offsets:
  "ascending_script b turns
   \<Longrightarrow> sint (offset b) \<le> sint (offset (fst (poll b turns)))
       \<and> sorted_wrt (\<lambda>x y. sint x \<le> sint y) (requested_offsets (fst (snd (poll b turns))))
       \<and> (\<forall>off \<in> set (requested_offsets (fst (snd (poll b turns)))). sint (offset b) \<le> sint off)"
proof (induction turns arbitrary: b)
  case Nil
  show ?case by simp
next
  case (Cons turn turns)
  have req: "requested_offsets (fst (getUpdates b (fetch turn))) = []
             \<or> requested_offsets (fst (getUpdates b (fetch turn))) = [offset b]"
    by (rule getUpdates_requested)
  show ?case
  proof (cases rule: poll_cases [where turn = turn and b = b])
    case (cancelled cerr)
    then show ?thesis by (simp add: poll_cancelled)
  next
    case (error_cancelled err cerr)
    then show ?thesis using req by (auto simp: poll_error_cancelled [OF error_cancelled])
  next
    case (error_retry err)
    with Cons.prems have "ascending_script b turns" by simp
    from Cons.IH [OF this] req show ?thesis
      by (auto simp: poll_error_retry [OF error_retry] requested_offsets_append
                     sorted_wrt_append)
  next
    case (fetched updates)
    let ?b1 = "fst (process_updates b updates)"
    from fetched Cons.prems have a: "ascending_batch (offset b) updates"
      and m: "max_int \<notin> UpdateID ` set updates" and s: "ascending_script ?b1 turns"
      by simp_all
    from batch_offset(1) [OF a m] have le: "sint (offset b) \<le> sint (offset ?b1)" .
    from Cons.IH [OF s] le req show ?thesis
      by (auto simp: poll_fetched [OF fetched] requested_offsets_append
                     process_updates_requested sorted_wrt_append)
  qed
qed

text \<open>
  C1, as stated, fails when the last id of a batch is the largest \<open>int\<close>: the batch is
  ascending and not below the offset 0, the offset set is that id plus one, which wraps
  around to the smallest \<open>int\<close>, so the offset decreases, and the next request carries
  an offset below the id that was consumed.
\<close>

theorem offset_wraps_counterexample:
  "ascending_batch
     (offset \<lparr>token = ''t'', offset = 0, commandRegistry = None :: nat CommandRegistry option,
              apiBaseURL = ''u''\<rparr>)
     [\<lparr>UpdateID = 0x7FFFFFFFFFFFFFFF, Message = None\<rparr>]
   \<and> sint (offset (fst (process_updates
                          \<lparr>token = ''t'', offset = 0,
                           commandRegistry = None :: nat CommandRegistry option,
                           apiBaseURL = ''u''\<rparr>
                          [\<lparr>UpdateID = 0x7FFFFFFFFFFFFFFF, Message = None\<rparr>])))
       = - 9223372036854775808
   \<and> requested_offsets (fst (snd (poll
        \<lparr>token = ''t'', offset = 0, commandRegistry = None :: nat CommandRegistry option,
         apiBaseURL = ''u''\<rparr>
        [\<lparr>ctx_at_select = None,
          fetch = \<lparr>marshal_err = None,
                   http = Decoded \<lparr>Ok = True, Result = ''[...]'', Description = []\<rparr>,
                   json_Unmarshal =
                     decodes_to [\<lparr>UpdateID = 0x7FFFFFFFFFFFFFFF, Message = None\<rparr>]\<rparr>,
          ctx_after_fetch = None\<rparr>,
         \<lparr>ctx_at_select = None,
          fetch = \<lparr>marshal_err = None,
                   http = Decoded \<lparr>Ok = True, Result = ''[]'', Description = []\<rparr>,
                   json_Unmarshal = decodes_to []\<rparr>,
          ctx_after_fetch = None\<rparr>])))
       = [0, 0x8000000000000000]
   \<and> sint (0x8000000000000000 :: go_int) < sint (0 :: go_int)
   \<and> sint (0x8000000000000000 :: go_int) < sint (0x7FFFFFFFFFFFFFFF :: go_int)"
  by (simp add: poll.simps(2) getUpdates_def makeRequest_def timeout_def decodes_to_def
                ascending_batch_def)

text \<open>
  C1, amended. The loop sets \<open>offset = id + 1\<close> for each update of a fetched batch in
  order, so after a batch that is not empty the offset is the last id plus one (in the
  arithmetic of \<open>int\<close>). If the ids of the batch are strictly ascending, none is below
  the current offset and none is the largest \<open>int\<close>, then the offset does not decrease,
  it is the last id plus one as a number, and it is above every id of the batch. Over any
  number of turns whose batches are such, the offset never decreases and the offsets of
  the getUpdates requests never decrease. After a batch that is not empty, the request of
  the next turn (when it is built and sent) carries the last id plus one and the timeout,
  and no later request carries an offset that is not above every id of the batch.
\<close>

theorem offset_advances:
  "(k < length updates
      \<longrightarrow> offset (fst (process_updates b (take (Suc k) updates))) = UpdateID (updates ! k) + 1)
   \<and> (updates \<noteq> []
      \<longrightarrow> offset (fst (process_updates b updates)) = UpdateID (last updates) + 1)
   \<and> (ascending_batch (offset b) updates \<and> max_int \<notin> UpdateID ` set updates
      \<longrightarrow> sint (offset b) \<le> sint (offset (fst (process_updates b updates)))
          \<and> (updates \<noteq> []
               \<longrightarrow> sint (offset (fst (process_updates b updates)))
                   = sint (UpdateID (last updates)) + 1)
          \<and> (\<forall>u \<in> set updates.
                sint (UpdateID u) < sint (offset (fst (process_updates b updates)))))
   \<and> (ascending_script b turns
      \<longrightarrow> sint (offset b) \<le> sint (offset (fst (poll b turns)))
          \<and> sorted_wrt (\<lambda>x y. sint x \<le> sint y) (requested_offsets (fst (snd (poll b turns))))
          \<and> (\<forall>off \<in> set (requested_offsets (fst (snd (poll b turns)))).
                sint (offset b) \<le> sint off))
   \<and> (ctx_at_select turn = None \<and> snd (getUpdates b (fetch turn)) = Inr updates
      \<and> updates \<noteq> [] \<and> ctx_at_select next_turn = None
      \<and> marshal_err (fetch next_turn) = None \<and> (\<forall>e. http (fetch next_turn) \<noteq> NewRequestFails e)
      \<longrightarrow> (\<exists>rest. fst (snd (poll b (turn # next_turn # turns)))
                   = fst (getUpdates b (fetch turn)) @ snd (process_updates b updates)
                     @ [HttpPost (apiBaseURL b) (token b) ''getUpdates''
                          (Some (Params (UpdateID (last updates) + 1) timeout))]
                     @ rest))
   \<and> (ctx_at_select turn = None \<and> snd (getUpdates b (fetch turn)) = Inr updates
      \<and> ascending_script b (turn # turns)
      \<longrightarrow> (\<forall>u \<in> set updates.
             \<forall>off \<in> set (requested_offsets
                            (fst (snd (poll (fst (process_updates b updates)) turns)))).
               sint (UpdateID u) < sint off))"
proof (intro conjI impI ballI)
  assume "k < length updates"
  then have "take (Suc k) updates \<noteq> []" and "last (take (Suc k) updates) = updates ! k"
    by (auto simp: take_Suc_conv_app_nth)
  then show "offset (fst (process_updates b (take (Suc k) updates))) = UpdateID (updates ! k) + 1"
    by (simp add: process_updates_bot)
next
  assume "updates \<noteq> []"
  then show "offset (fst (process_updates b updates)) = UpdateID (last updates) + 1"
    by (simp add: process_updates_bot)
next
  assume a: "ascending_batch (offset b) updates \<and> max_int \<notin> UpdateID ` set updates"
  then show "sint (offset b) \<le> sint (offset (fst (process_updates b updates)))"
    by (simp add: batch_offset(1))
  show "sint (offset (fst (process_updates b updates))) = sint (UpdateID (last updates)) + 1"
    if "updates \<noteq> []"
    using a that by (simp add: batch_offset(2))
  show "sint (UpdateID u) < sint (offset (fst (process_updates b updates)))"
    if "u \<in> set updates" for u
    using a that by (simp add: batch_offset(3))
next
  assume "ascending_script b turns"
  from poll_offsets [OF this]
  show "sint (offset b) \<le> sint (offset (fst (poll b turns)))"
    and "sorted_wrt (\<lambda>x y. sint x \<le> sint y) (requested_offsets (fst (snd (poll b turns))))"
    and "\<And>off. off \<in> set (requested_offsets (fst (snd (poll b turns))))
          \<Longrightarrow> sint (offset b) \<le> sint off"
    by simp_all
next
  assume a: "ctx_at_select turn = None \<and> snd (getUpdates b (fetch turn)) = Inr updates
      \<and> updates \<noteq> [] \<and> ctx_at_select next_turn = None
      \<and> marshal_err (fetch next_turn) = None \<and> (\<forall>e. http (fetch next_turn) \<noteq> NewRequestFails e)"
  let ?b1 = "fst (process_updates b updates)"
  from a have f: "ctx_at_select turn = None" "snd (getUpdates b (fetch turn)) = Inr updates"
    by simp_all
  from a have "fst (getUpdates ?b1 (fetch next_turn))
                 = [HttpPost (apiBaseURL ?b1) (token ?b1) ''getUpdates''
                      (Some (Params (offset ?b1) timeout))]"
    by (intro getUpdates_posts) simp_all
  moreover from a obtain rest
    where "fst (snd (poll ?b1 (next_turn # turns))) = fst (getUpdates ?b1 (fetch next_turn)) @ rest"
    using poll_first_events [of next_turn ?b1 turns] by auto
  ultimately have "fst (snd (poll b (turn # next_turn # turns)))
                   = fst (getUpdates b (fetch turn)) @ snd (process_updates b updates)
                     @ [HttpPost (apiBaseURL b) (token b) ''getUpdates''
                          (Some (Params (UpdateID (last updates) + 1) timeout))]
                     @ rest"
    using a by (simp add: poll_fetched [OF f] process_updates_bot)
  then show "\<exists>rest. fst (snd (poll b (turn # next_turn # turns)))
                   = fst (getUpdates b (fetch turn)) @ snd (process_updates b updates)
                     @ [HttpPost (apiBaseURL b) (token b) ''getUpdates''
                          (Some (Params (UpdateID (last updates) + 1) timeout))]
                     @ rest"
    by blast
next
  fix u off
  assume a: "ctx_at_select turn = None \<and> snd (getUpdates b (fetch turn)) = Inr updates
      \<and> ascending_script b (turn # turns)"
    and u: "u \<in> set updates"
    and o: "off \<in> set (requested_offsets
                            (fst (snd (poll (fst (process_updates b updates)) turns))))"
  let ?b1 = "fst (process_updates b updates)"
  from a have b: "ascending_batch (offset b) updates" and m: "max_int \<notin> UpdateID ` set updates"
    and s: "ascending_script ?b1 turns"
    by auto
  from poll_offsets [OF s] o have "sint (offset ?b1) \<le> sint off" by simp
  with batch_offset(3) [OF b m u] show "sint (UpdateID u) < sint off" by simp
qed

theorem offset_advances_witness:
  "ascending_script
     \<lparr>token = ''t'', offset = 0, commandRegistry = None :: nat CommandRegistry option,
      apiBaseURL = ''u''\<rparr>
     [\<lparr>ctx_at_select = None,
       fetch = \<lparr>marshal_err = None,
                http = Decoded \<lparr>Ok = True, Result = ''[...]'', Description = []\<rparr>,
                json_Unmarshal =
                  decodes_to [\<lparr>UpdateID = 5, Message = None\<rparr>,
                               \<lparr>UpdateID = 7, Message = None\<rparr>]\<rparr>,
       ctx_after_fetch = None\<rparr>,
      \<lparr>ctx_at_select = None,
       fetch = \<lparr>marshal_err = None,
                http = Decoded \<lparr>Ok = True, Result = ''[]'', Description = []\<rparr>,
                json_Unmarshal = decodes_to []\<rparr>,
       ctx_after_fetch = None\<rparr>]
   \<and> poll
     \<lparr>token = ''t'', offset = 0, commandRegistry = None :: nat CommandRegistry option,
      apiBaseURL = ''u''\<rparr>
     [\<lparr>ctx_at_select = None,
       fetch = \<lparr>marshal_err = None,
                http = Decoded \<lparr>Ok = True, Result = ''[...]'', Description = []\<rparr>,
                json_Unmarshal =
                  decodes_to [\<lparr>UpdateID = 5, Message = None\<rparr>,
                               \<lparr>UpdateID = 7, Message = None\<rparr>]\<rparr>,
       ctx_after_fetch = None\<rparr>,
      \<lparr>ctx_at_select = None,
       fetch = \<lparr>marshal_err = None,
                http = Decoded \<lparr>Ok = True, Result = ''[]'', Description = []\<rparr>,
                json_Unmarshal = decodes_to []\<rparr>,
       ctx_after_fetch = None\<rparr>]
   = (\<lparr>token = ''t'', offset = 8, commandRegistry = None, apiBaseURL = ''u''\<rparr>,
      [HttpPost ''u'' ''t'' ''getUpdates'' (Some (Params 0 60)),
       HttpPost ''u'' ''t'' ''getUpdates'' (Some (Params 8 60))],
      None)
   \<and> sorted_wrt (\<lambda>x y. sint x \<le> sint y) [0, 8 :: go_int]"
proof -
  let ?b = "\<lparr>token = ''t'', offset = 0, commandRegistry = None :: nat CommandRegistry option,
             apiBaseURL = ''u''\<rparr>"
  let ?t1 = "\<lparr>ctx_at_select = None,
       fetch = \<lparr>marshal_err = None,
                http = Decoded \<lparr>Ok = True, Result = ''[...]'', Description = []\<rparr>,
                json_Unmarshal =
                  decodes_to [\<lparr>UpdateID = 5, Message = None\<rparr>,
                               \<lparr>UpdateID = 7, Message = None\<rparr>]\<rparr>,
       ctx_after_fetch = None\<rparr>"
  let ?t2 = "\<lparr>ctx_at_select = None,
       fetch = \<lparr>marshal_err = None,
                http = Decoded \<lparr>Ok = True, Result = ''[]'', Description = []\<rparr>,
                json_Unmarshal = decodes_to ([] :: Update list)\<rparr>,
       ctx_after_fetch = None\<rparr>"
  have s: "ascending_script ?b [?t1, ?t2]"
    by (simp add: getUpdates_def makeRequest_def timeout_def decodes_to_def
                  ascending_batch_def max_int_def)
  have p: "poll ?b [?t1, ?t2]
           = (\<lparr>token = ''t'', offset = 8, commandRegistry = None, apiBaseURL = ''u''\<rparr>,
              [HttpPost ''u'' ''t'' ''getUpdates'' (Some (Params 0 60)),
               HttpPost ''u'' ''t'' ''getUpdates'' (Some (Params 8 60))],
              None)"
    by (simp add: poll.simps(2) getUpdates_def makeRequest_def timeout_def decodes_to_def)
  show ?thesis
    using s p offset_advances [where b = ?b and turns = "[?t1, ?t2]",
        THEN conjunct2, THEN conjunct2, THEN conjunct2, THEN conjunct1]
    by simp
qed

end
